theory Spec2Isabelle
  imports Main "HOL-Library.Multiset"
begin

section \<open>The job entity (class Job)\<close>

text \<open>
  The C++ type \<^verbatim>\<open>int\<close> is modelled by the mathematical integers: signed overflow is
  undefined behaviour in C++, so the model describes every run in which no counter leaves
  the range of \<^verbatim>\<open>int\<close>.
\<close>

record Job =
  jobId :: int
  name :: string
  arrivalTime :: int
  burstTime :: int
  priority :: int
  remainingTime :: int
  startTime :: int
  completionTime :: int
  waitingTime :: int
  turnaroundTime :: int

text \<open>\<^verbatim>\<open>std::to_string\<close> on an \<^verbatim>\<open>int\<close>: decimal digits, a minus sign for negatives.\<close>

fun digits :: "nat \<Rightarrow> string" where
  "digits n = (if n < 10 then [char_of (48 + n)] else digits (n div 10) @ [char_of (48 + n mod 10)])"

declare digits.simps [simp del]

definition to_string :: "int \<Rightarrow> string" where
  "to_string i = (if i < 0 then CHR ''-'' # digits (nat (- i)) else digits (nat i))"

text \<open>The two constructors: \<^verbatim>\<open>Job(int id, int arrival, int burst, int prio)\<close> and
  \<^verbatim>\<open>Job(const std::string& name, int arrival, int burst, int prio)\<close>.\<close>

definition Job_id :: "int \<Rightarrow> int \<Rightarrow> int \<Rightarrow> int \<Rightarrow> Job" where
  "Job_id i arrival burst prio =
     \<lparr>jobId = i, name = ''Job'' @ to_string i, arrivalTime = arrival, burstTime = burst,
      priority = prio, remainingTime = burst, startTime = -1, completionTime = -1,
      waitingTime = 0, turnaroundTime = 0\<rparr>"

definition Job_named :: "string \<Rightarrow> int \<Rightarrow> int \<Rightarrow> int \<Rightarrow> Job" where
  "Job_named nm arrival burst prio =
     \<lparr>jobId = -1, name = nm, arrivalTime = arrival, burstTime = burst,
      priority = prio, remainingTime = burst, startTime = -1, completionTime = -1,
      waitingTime = 0, turnaroundTime = 0\<rparr>"

definition calculateMetrics :: "Job \<Rightarrow> Job" where
  "calculateMetrics j =
     (let j1 = j\<lparr>turnaroundTime := completionTime j - arrivalTime j\<rparr>
      in j1\<lparr>waitingTime := turnaroundTime j1 - burstTime j1\<rparr>)"

section \<open>The four scheduler classes\<close>

text \<open>
  Each class is one constructor; the first two fields are the protected members
  \<^verbatim>\<open>scheduledJobs\<close> and \<^verbatim>\<open>timelineLog\<close> of the base class, the rest the members of the
  derived class. \<^verbatim>\<open>std::queue\<close> and \<^verbatim>\<open>std::vector\<close> are lists, front first.
\<close>

datatype Scheduler =
    FCFSScheduler (scheduledJobs: "Job list") (timelineLog: "string list") (fcfsQueue: "Job list")
  | SJFScheduler (scheduledJobs: "Job list") (timelineLog: "string list") (sjfQueue: "Job list")
  | RoundRobinScheduler (scheduledJobs: "Job list") (timelineLog: "string list")
      (rrQueue: "Job list") (timeQuantum: int)
  | PriorityScheduler (scheduledJobs: "Job list") (timelineLog: "string list")
      (priorityQueue: "Job list") (agingThreshold: int) (agingIncrement: int)

text \<open>The ready-set of a scheduler, whichever member holds it.\<close>

fun readySet :: "Scheduler \<Rightarrow> Job list" where
  "readySet (FCFSScheduler sj lg q) = q"
| "readySet (SJFScheduler sj lg q) = q"
| "readySet (RoundRobinScheduler sj lg q tq) = q"
| "readySet (PriorityScheduler sj lg q th inc) = q"

text \<open>
  \<^verbatim>\<open>std::sort\<close> with a comparator \<^verbatim>\<open>key(a) < key(b)\<close> is a parameter of the model: the
  standard promises a sorted permutation and leaves the order of equal keys open.
  \<open>sorts\<close> is that contract; \<^const>\<open>sort_key\<close> (insertion sort) satisfies it.
\<close>

type_synonym sorter = "(Job \<Rightarrow> int) \<Rightarrow> Job list \<Rightarrow> Job list"

definition sorts :: "sorter \<Rightarrow> bool" where
  "sorts srt \<longleftrightarrow> (\<forall>key xs. mset (srt key xs) = mset xs \<and> sorted (map key (srt key xs)))"

text \<open>
  \<^verbatim>\<open>std::min_element\<close> with the comparator \<^verbatim>\<open>key(a) < key(b)\<close>: the position of the first
  element that no later element beats; the loop keeps the best element seen so far and
  replaces it only by a strictly smaller one.
\<close>

fun min_loop :: "('a \<Rightarrow> int) \<Rightarrow> 'a \<Rightarrow> nat \<Rightarrow> nat \<Rightarrow> 'a list \<Rightarrow> nat" where
  "min_loop key smallest si i [] = si"
| "min_loop key smallest si i (x # xs) =
     (if key x < key smallest then min_loop key x i (i + 1) xs
      else min_loop key smallest si (i + 1) xs)"

definition min_element :: "('a \<Rightarrow> int) \<Rightarrow> 'a list \<Rightarrow> nat" where
  "min_element key xs = (case xs of [] \<Rightarrow> 0 | x # rest \<Rightarrow> min_loop key x 0 1 rest)"

text \<open>\<^verbatim>\<open>vector::erase(it)\<close> at a position inside the vector.\<close>

definition erase :: "'a list \<Rightarrow> nat \<Rightarrow> 'a list" where
  "erase xs i = take i xs @ drop (Suc i) xs"

fun addJob :: "Scheduler \<Rightarrow> Job \<Rightarrow> Scheduler" where
  "addJob (FCFSScheduler sj lg q) job = FCFSScheduler sj lg (q @ [job])"
| "addJob (SJFScheduler sj lg q) job = SJFScheduler sj lg (q @ [job])"
| "addJob (RoundRobinScheduler sj lg q tq) job = RoundRobinScheduler sj lg (q @ [job]) tq"
| "addJob (PriorityScheduler sj lg q th inc) job = PriorityScheduler sj lg (q @ [job]) th inc"

fun hasJobs :: "Scheduler \<Rightarrow> bool" where
  "hasJobs (FCFSScheduler sj lg q) = (q \<noteq> [])"
| "hasJobs (SJFScheduler sj lg q) = (q \<noteq> [])"
| "hasJobs (RoundRobinScheduler sj lg q tq) = (q \<noteq> [])"
| "hasJobs (PriorityScheduler sj lg q th inc) = (q \<noteq> [])"

text \<open>\<^verbatim>\<open>getNextJob\<close> returns the job and the scheduler it leaves behind.\<close>

fun getNextJob :: "Scheduler \<Rightarrow> Job \<times> Scheduler" where
  "getNextJob (FCFSScheduler sj lg q) =
     (case q of
        job # rest \<Rightarrow> (job, FCFSScheduler (sj @ [job]) lg rest)
      | [] \<Rightarrow> (Job_id (-1) 0 0 0, FCFSScheduler sj lg q))"
| "getNextJob (SJFScheduler sj lg q) =
     (if q = [] then (Job_id (-1) 0 0 0, SJFScheduler sj lg q)
      else let it = min_element remainingTime q; job = q ! it
           in (job, SJFScheduler (sj @ [job]) lg (erase q it)))"
| "getNextJob (RoundRobinScheduler sj lg q tq) =
     (case q of
        [] \<Rightarrow> (Job_id (-1) 0 0 0, RoundRobinScheduler sj lg q tq)
      | job # rest \<Rightarrow> (job, RoundRobinScheduler (sj @ [job]) lg rest tq))"
| "getNextJob (PriorityScheduler sj lg q th inc) =
     (if q = [] then (Job_id (-1) 0 0 0, PriorityScheduler sj lg q th inc)
      else let it = min_element priority q; job = q ! it
           in (job, PriorityScheduler (sj @ [job]) lg (erase q it) th inc))"

text \<open>\<^verbatim>\<open>PriorityScheduler::applyAging\<close>, the body of its loop on one job and the loop.\<close>

definition ageJob :: "int \<Rightarrow> int \<Rightarrow> int \<Rightarrow> Job \<Rightarrow> Job" where
  "ageJob th inc currentTime job =
     (if currentTime - arrivalTime job > th then
        (let job1 = job\<lparr>priority := priority job - inc\<rparr>
         in if priority job1 < 0 then job1\<lparr>priority := 0\<rparr> else job1)
      else job)"

definition applyAging :: "int \<Rightarrow> int \<Rightarrow> int \<Rightarrow> Job list \<Rightarrow> Job list" where
  "applyAging th inc currentTime q = map (ageJob th inc currentTime) q"

fun schedule :: "sorter \<Rightarrow> Scheduler \<Rightarrow> int \<Rightarrow> Scheduler" where
  "schedule srt (FCFSScheduler sj lg q) t = FCFSScheduler sj lg q"
| "schedule srt (SJFScheduler sj lg q) t = SJFScheduler sj lg (srt remainingTime q)"
| "schedule srt (RoundRobinScheduler sj lg q tq) t = RoundRobinScheduler sj lg q tq"
| "schedule srt (PriorityScheduler sj lg q th inc) t =
     PriorityScheduler sj lg (srt priority (applyAging th inc t q)) th inc"

fun setJobs :: "sorter \<Rightarrow> Scheduler \<Rightarrow> Job list \<Rightarrow> Scheduler" where
  "setJobs srt (FCFSScheduler sj lg q) jobs = FCFSScheduler [] [] jobs"
| "setJobs srt (SJFScheduler sj lg q) jobs = SJFScheduler [] [] (srt burstTime jobs)"
| "setJobs srt (RoundRobinScheduler sj lg q tq) jobs = RoundRobinScheduler [] [] jobs tq"
| "setJobs srt (PriorityScheduler sj lg q th inc) jobs =
     PriorityScheduler [] [] (srt priority jobs) th inc"

section \<open>The simulator\<close>

record Simulator =
  currentTime :: int
  scheduler :: Scheduler
  allJobs :: "Job list"
  finishedJobs :: "Job list"
  ganttChart :: "(int \<times> int) list"

definition Simulator_new :: "Scheduler \<Rightarrow> Job list \<Rightarrow> Simulator" where
  "Simulator_new sched jobs =
     \<lparr>currentTime = 0, scheduler = sched, allJobs = jobs, finishedJobs = [], ganttChart = []\<rparr>"

text \<open>
  The admission loop of \<^verbatim>\<open>run\<close>: it walks \<^verbatim>\<open>allJobs\<close> front to back, hands every job that
  has arrived to the scheduler and erases it; it returns the jobs left and the scheduler.
\<close>

fun admit :: "int \<Rightarrow> Job list \<Rightarrow> Scheduler \<Rightarrow> Job list \<times> Scheduler" where
  "admit t [] sch = ([], sch)"
| "admit t (job # rest) sch =
     (if arrivalTime job \<le> t then admit t rest (addJob sch job)
      else (let (left, sch') = admit t rest sch in (job # left, sch')))"

text \<open>One iteration of the \<^verbatim>\<open>while\<close> loop of \<^verbatim>\<open>Simulator::run\<close>.\<close>

definition step :: "sorter \<Rightarrow> Simulator \<Rightarrow> Simulator" where
  "step srt s =
     (let t = currentTime s;
          (left, sch1) = admit t (allJobs s) (scheduler s);
          sch2 = schedule srt sch1 t
      in if hasJobs sch2 then
           (let (job0, sch3) = getNextJob sch2;
                job1 = (if startTime job0 = -1 then job0\<lparr>startTime := t\<rparr> else job0);
                gantt = ganttChart s @ [(jobId job1, t)];
                job2 = job1\<lparr>remainingTime := remainingTime job1 - 1\<rparr>;
                t' = t + 1
            in if remainingTime job2 = 0 then
                 s\<lparr>currentTime := t', scheduler := sch3, allJobs := left,
                   finishedJobs := finishedJobs s @ [calculateMetrics (job2\<lparr>completionTime := t'\<rparr>)],
                   ganttChart := gantt\<rparr>
               else
                 s\<lparr>currentTime := t', scheduler := addJob sch3 job2, allJobs := left,
                   ganttChart := gantt\<rparr>)
         else s\<lparr>currentTime := t + 1, scheduler := sch2, allJobs := left\<rparr>)"

definition running :: "Simulator \<Rightarrow> bool" where
  "running s \<longleftrightarrow> allJobs s \<noteq> [] \<or> hasJobs (scheduler s)"

text \<open>\<^verbatim>\<open>Simulator::run\<close>: \<open>None\<close> is a loop that never ends.\<close>

partial_function (option) run :: "sorter \<Rightarrow> Simulator \<Rightarrow> Simulator option" where
  "run srt s = (if running s then run srt (step srt s) else Some s)"

declare run.simps [code]

section \<open>The caller: UIController::createSimulator\<close>

text \<open>
  The members of \<^verbatim>\<open>UIController\<close>; its \<^verbatim>\<open>agingThreshold\<close> and \<^verbatim>\<open>agingIncrement\<close> carry the
  prefix \<open>ui\<close>, the names without it being the members of \<^verbatim>\<open>PriorityScheduler\<close>.
\<close>

record UIController =
  jobs :: "Job list"
  currentAlgorithm :: int
  rrQuantum :: int
  uiAgingThreshold :: int
  uiAgingIncrement :: int
  jobsFile :: string

text \<open>\<^verbatim>\<open>UIController()\<close>, before any job is loaded.\<close>

definition UIController_new :: UIController where
  "UIController_new = \<lparr>jobs = [], currentAlgorithm = 0, rrQuantum = 2,
     uiAgingThreshold = 5, uiAgingIncrement = 1, jobsFile = ''jobs.csv''\<rparr>"

definition createSimulator :: "sorter \<Rightarrow> UIController \<Rightarrow> Simulator" where
  "createSimulator srt ui =
     (let sched =
        (if currentAlgorithm ui = 0 then FCFSScheduler [] [] []
         else if currentAlgorithm ui = 1 then SJFScheduler [] [] []
         else if currentAlgorithm ui = 2 then RoundRobinScheduler [] [] [] (rrQuantum ui)
         else if currentAlgorithm ui = 3 then
           PriorityScheduler [] [] [] (uiAgingThreshold ui) (uiAgingIncrement ui)
         else FCFSScheduler [] [] []);
          sched' = setJobs srt sched (jobs ui)
      in Simulator_new sched' (jobs ui))"

section \<open>Vocabulary of the proofs\<close>

text \<open>What an iteration does to the job it has selected: the first-execution stamp and the decrement.\<close>

definition ran :: "int \<Rightarrow> Job \<Rightarrow> Job" where
  "ran t job0 =
     (let job1 = (if startTime job0 = -1 then job0\<lparr>startTime := t\<rparr> else job0)
      in job1\<lparr>remainingTime := remainingTime job1 - 1\<rparr>)"

text \<open>The jobs still to be run (backlog and ready-set), the work they hold, and the time
  until the last arrival: the sum of the two numbers decreases in every iteration.\<close>

definition pending :: "Simulator \<Rightarrow> Job multiset" where
  "pending s = mset (allJobs s) + mset (readySet (scheduler s))"

definition work :: "Simulator \<Rightarrow> nat" where
  "work s = (\<Sum>j\<in>#pending s. nat (remainingTime j))"

definition horizon :: "Simulator \<Rightarrow> int" where
  "horizon s = Max (insert (currentTime s) (arrivalTime ` set (allJobs s)))"

definition wait :: "Simulator \<Rightarrow> nat" where
  "wait s = nat (horizon s - currentTime s)"

definition alive :: "Simulator \<Rightarrow> bool" where
  "alive s \<longleftrightarrow> (\<forall>j\<in>#pending s. 1 \<le> remainingTime j)"

text \<open>The two equations \<^verbatim>\<open>calculateMetrics\<close> establishes.\<close>

definition metrics_ok :: "Job \<Rightarrow> bool" where
  "metrics_ok j \<longleftrightarrow> turnaroundTime j = completionTime j - arrivalTime j
     \<and> waitingTime j = turnaroundTime j - burstTime j"

text \<open>The two schedulers that keep a \<^verbatim>\<open>std::queue\<close>, and the same scheduler state seen as a
  round-robin scheduler with a given quantum.\<close>

fun isQueue :: "Scheduler \<Rightarrow> bool" where
  "isQueue (FCFSScheduler sj lg q) = True"
| "isQueue (RoundRobinScheduler sj lg q tq) = True"
| "isQueue sch = False"

fun asRoundRobin :: "int \<Rightarrow> Scheduler \<Rightarrow> Scheduler" where
  "asRoundRobin tq' (FCFSScheduler sj lg q) = RoundRobinScheduler sj lg q tq'"
| "asRoundRobin tq' (RoundRobinScheduler sj lg q tq) = RoundRobinScheduler sj lg q tq'"
| "asRoundRobin tq' sch = sch"

definition withQuantum :: "int \<Rightarrow> Simulator \<Rightarrow> Simulator" where
  "withQuantum tq' s = s\<lparr>scheduler := asRoundRobin tq' (scheduler s)\<rparr>"

text \<open>What a run shows to its caller: the timeline and the finished jobs.\<close>

definition outcome :: "Simulator \<Rightarrow> (int \<times> int) list \<times> Job list" where
  "outcome s = (ganttChart s, finishedJobs s)"

text \<open>A simulator that holds a job with no work left to count down to 0, and the invariant
  that keeps jobs with burstTime 0 out of finishedJobs.\<close>

definition stuck :: "Simulator \<Rightarrow> bool" where
  "stuck s \<longleftrightarrow> (\<exists>j\<in>#pending s. remainingTime j \<le> 0)"

definition zero_held :: "Simulator \<Rightarrow> bool" where
  "zero_held s \<longleftrightarrow> (\<forall>j\<in>#pending s. burstTime j = 0 \<longrightarrow> remainingTime j \<le> 0)
     \<and> (\<forall>j\<in>set (finishedJobs s). burstTime j \<noteq> 0)"

text \<open>The timeline records written and the units of work still to be run: their sum does
  not change in an iteration.\<close>

definition owed :: "Simulator \<Rightarrow> int" where
  "owed s = int (length (ganttChart s)) + (\<Sum>j\<in>#pending s. remainingTime j)"

text \<open>A ready job at time \<open>t\<close> that has arrived, has started (if at all) after its arrival,
  and has been run no more units than the time since its arrival allows; a finished job
  with the order of times and the waiting time of the specification; a simulator whose
  backlog is untouched and whose ready and finished jobs are of these kinds.\<close>

definition timely :: "int \<Rightarrow> Job \<Rightarrow> bool" where
  "timely t j \<longleftrightarrow> arrivalTime j \<le> t
     \<and> (startTime j = -1 \<or> arrivalTime j \<le> startTime j \<and> startTime j \<le> t)
     \<and> arrivalTime j + burstTime j - remainingTime j \<le> t"

definition done_ok :: "Job \<Rightarrow> bool" where
  "done_ok j \<longleftrightarrow> arrivalTime j \<le> startTime j \<and> startTime j \<le> completionTime j \<and> 0 \<le> waitingTime j"

definition orderly :: "Simulator \<Rightarrow> bool" where
  "orderly s \<longleftrightarrow> list_all (\<lambda>j. remainingTime j = burstTime j \<and> startTime j = -1) (allJobs s)
     \<and> list_all (timely (currentTime s)) (readySet (scheduler s))
     \<and> list_all done_ok (finishedJobs s)"

section \<open>Example inputs\<close>

text \<open>The scenario of the specification: job 1 arrives at 0 with burst 4, job 2 at 1 with burst 2.\<close>

definition scenario :: "Job list" where
  "scenario = [Job_id 1 0 4 0, Job_id 2 1 2 0]"

text \<open>Two jobs that are both ready at time 0, in front of an empty SJF scheduler.\<close>

definition two_ready :: Simulator where
  "two_ready = Simulator_new (SJFScheduler [] [] []) [Job_id 1 0 4 0, Job_id 2 0 2 0]"

text \<open>A job list the CSV loader accepts: one job with burstTime 0.\<close>

definition zero_burst :: "Job list" where
  "zero_burst = [Job_id 1 0 0 0]"

text \<open>The job list of the user interface with one job of one unit, arriving at 0, and
  with one job of one unit arriving at 5; the algorithm is the default, FCFS.\<close>

definition once_loaded :: UIController where
  "once_loaded = UIController_new\<lparr>jobs := [Job_id 1 0 1 0]\<rparr>"

definition late_arrival :: UIController where
  "late_arrival = UIController_new\<lparr>jobs := [Job_id 1 5 1 0]\<rparr>"

section \<open>Selection: std::min_element and std::sort\<close>

lemma min_loop_spec:
  "(min_loop key b bi i xs = bi \<and> (\<forall>x\<in>set xs. key b \<le> key x))
   \<or> (\<exists>k<length xs. min_loop key b bi i xs = i + k \<and> key (xs ! k) < key b
        \<and> (\<forall>j<k. key (xs ! k) < key (xs ! j))
        \<and> (\<forall>j<length xs. key (xs ! k) \<le> key (xs ! j)))"
proof (induction xs arbitrary: b bi i)
  case Nil
  then show ?case by simp
next
  case (Cons x xs)
  show ?case
  proof (cases "key x < key b")
    case True
    from Cons.IH [of x i "i + 1"] show ?thesis
    proof
      assume h: "min_loop key x i (i + 1) xs = i \<and> (\<forall>y\<in>set xs. key x \<le> key y)"
      have "\<forall>j<length (x # xs). key ((x # xs) ! 0) \<le> key ((x # xs) ! j)"
        using h by (auto simp: nth_Cons split: nat.splits)
      then show ?thesis using True h
        by (intro disjI2 exI [of _ 0]) simp
    next
      assume "\<exists>k<length xs. min_loop key x i (i + 1) xs = i + 1 + k \<and> key (xs ! k) < key x
        \<and> (\<forall>j<k. key (xs ! k) < key (xs ! j))
        \<and> (\<forall>j<length xs. key (xs ! k) \<le> key (xs ! j))"
      then obtain k where k: "k < length xs" "min_loop key x i (i + 1) xs = i + 1 + k"
        "key (xs ! k) < key x" "\<forall>j<k. key (xs ! k) < key (xs ! j)"
        "\<forall>j<length xs. key (xs ! k) \<le> key (xs ! j)" by blast
      have a: "\<forall>j<Suc k. key ((x # xs) ! Suc k) < key ((x # xs) ! j)"
        using k by (auto simp: nth_Cons split: nat.splits)
      have b: "\<forall>j<length (x # xs). key ((x # xs) ! Suc k) \<le> key ((x # xs) ! j)"
        using k by (auto simp: nth_Cons split: nat.splits)
      show ?thesis using True k(1,2,3) a b
        by (intro disjI2 exI [of _ "Suc k"]) simp
    qed
  next
    case False
    from Cons.IH [of b bi "i + 1"] show ?thesis
    proof
      assume "min_loop key b bi (i + 1) xs = bi \<and> (\<forall>y\<in>set xs. key b \<le> key y)"
      then show ?thesis using False by simp
    next
      assume "\<exists>k<length xs. min_loop key b bi (i + 1) xs = i + 1 + k \<and> key (xs ! k) < key b
        \<and> (\<forall>j<k. key (xs ! k) < key (xs ! j))
        \<and> (\<forall>j<length xs. key (xs ! k) \<le> key (xs ! j))"
      then obtain k where k: "k < length xs" "min_loop key b bi (i + 1) xs = i + 1 + k"
        "key (xs ! k) < key b" "\<forall>j<k. key (xs ! k) < key (xs ! j)"
        "\<forall>j<length xs. key (xs ! k) \<le> key (xs ! j)" by blast
      have a: "\<forall>j<Suc k. key ((x # xs) ! Suc k) < key ((x # xs) ! j)"
        using k False by (auto simp: nth_Cons split: nat.splits)
      have b: "\<forall>j<length (x # xs). key ((x # xs) ! Suc k) \<le> key ((x # xs) ! j)"
        using k False by (auto simp: nth_Cons split: nat.splits)
      show ?thesis using False k(1,2,3) a b
        by (intro disjI2 exI [of _ "Suc k"]) simp
    qed
  qed
qed

lemma min_element_spec:
  assumes "xs \<noteq> []"
  shows "min_element key xs < length xs
       \<and> (\<forall>j<length xs. key (xs ! min_element key xs) \<le> key (xs ! j))
       \<and> (\<forall>j<min_element key xs. key (xs ! min_element key xs) < key (xs ! j))"
proof -
  from assms obtain x rest where xs: "xs = x # rest" by (cases xs) auto
  have me: "min_element key xs = min_loop key x 0 1 rest" by (simp add: xs min_element_def)
  from min_loop_spec [of key x 0 1 rest] show ?thesis
  proof
    assume h: "min_loop key x 0 1 rest = 0 \<and> (\<forall>y\<in>set rest. key x \<le> key y)"
    then have "\<forall>j<length xs. key (xs ! 0) \<le> key (xs ! j)"
      by (auto simp: xs nth_Cons split: nat.splits)
    then show ?thesis using h me by (simp add: xs)
  next
    assume "\<exists>k<length rest. min_loop key x 0 1 rest = 1 + k \<and> key (rest ! k) < key x
        \<and> (\<forall>j<k. key (rest ! k) < key (rest ! j))
        \<and> (\<forall>j<length rest. key (rest ! k) \<le> key (rest ! j))"
    then obtain k where k: "k < length rest" "min_loop key x 0 1 rest = 1 + k"
        "key (rest ! k) < key x" "\<forall>j<k. key (rest ! k) < key (rest ! j)"
        "\<forall>j<length rest. key (rest ! k) \<le> key (rest ! j)" by blast
    have a: "\<forall>j<Suc k. key (xs ! Suc k) < key (xs ! j)"
      using k by (auto simp: xs nth_Cons split: nat.splits)
    have b: "\<forall>j<length xs. key (xs ! Suc k) \<le> key (xs ! j)"
      using k by (auto simp: xs nth_Cons split: nat.splits)
    show ?thesis using k(1,2) a b me by (simp add: xs)
  qed
qed

lemma erase_mset: "i < length xs \<Longrightarrow> mset xs = add_mset (xs ! i) (mset (erase xs i))"
  unfolding erase_def
  by (metis append_take_drop_id Cons_nth_drop_Suc mset.simps(2) mset_append union_mset_add_mset_right)

lemma sorts_sort_key: "sorts sort_key"
  by (simp add: sorts_def)

lemma sorts_mset: "sorts srt \<Longrightarrow> mset (srt key xs) = mset xs"
  by (simp add: sorts_def)

lemma sorts_set: "sorts srt \<Longrightarrow> set (srt key xs) = set xs"
  by (metis sorts_mset set_mset_mset)

lemma sorts_Nil: "sorts srt \<Longrightarrow> (srt key xs = []) = (xs = [])"
  by (metis sorts_mset mset_zero_iff)

lemma sorts_sorted: "sorts srt \<Longrightarrow> sorted (map key (srt key xs))"
  by (simp add: sorts_def)

lemma min_element_least:
  assumes "xs \<noteq> []" "x \<in> set xs"
  shows "key (xs ! min_element key xs) \<le> key x"
  using min_element_spec [OF assms(1), of key] assms(2) by (auto simp: in_set_conv_nth)

lemma min_element_in: "xs \<noteq> [] \<Longrightarrow> xs ! min_element key xs \<in> set xs"
  using min_element_spec [of xs key] by simp

lemma admit_spec:
  "admit t js sch = (left, sch1) \<Longrightarrow>
   left = filter (\<lambda>j. \<not> arrivalTime j \<le> t) js
   \<and> readySet sch1 = readySet sch @ filter (\<lambda>j. arrivalTime j \<le> t) js"
proof (induction js arbitrary: sch left sch1)
  case Nil
  then show ?case by simp
next
  case (Cons j js)
  show ?case
  proof (cases "arrivalTime j \<le> t")
    case True
    with Cons.prems have "admit t js (addJob sch j) = (left, sch1)" by simp
    from Cons.IH [OF this] True show ?thesis by (cases sch) simp_all
  next
    case False
    obtain l s' where a: "admit t js sch = (l, s')" by (cases "admit t js sch")
    with Cons.prems False have "left = j # l" "sch1 = s'" by simp_all
    with Cons.IH [OF a] False show ?thesis by simp
  qed
qed

lemma hasJobs_readySet: "hasJobs sch = (readySet sch \<noteq> [])"
  by (cases sch) simp_all

lemma step_gantt_SJF:
  assumes "sorts srt"
    and "admit (currentTime s) (allJobs s) (scheduler s) = (left, SJFScheduler sj lg q)"
    and "q \<noteq> []"
    and "getNextJob (schedule srt (SJFScheduler sj lg q) (currentTime s)) = (job, sch3)"
  shows "ganttChart (step srt s) = ganttChart s @ [(jobId job, currentTime s)]"
  using assms by (simp add: step_def Let_def sorts_Nil split: if_splits)


section \<open>Shortest job first\<close>

text \<open>
  C6. In an iteration of \<^verbatim>\<open>run\<close> with the SJF scheduler whose ready-set \<open>q\<close> after
  admission is not empty (in particular when it holds two or more jobs), the job that
  \<^verbatim>\<open>schedule\<close> followed by \<^verbatim>\<open>getNextJob\<close> selects is a job of \<open>q\<close> whose remainingTime is not
  greater than that of any job of \<open>q\<close>; it is the first minimum of the sorted ready-set
  (every job in front of it has a strictly greater remainingTime), it is the one erased,
  and it is the job whose id the iteration appends to the timeline.
\<close>

theorem C6_SJF_selects_shortest_remaining:
  assumes "sorts srt"
    and "admit (currentTime s) (allJobs s) (scheduler s) = (left, SJFScheduler sj lg q)"
    and "q \<noteq> []"
  shows "\<exists>i job sch3.
      getNextJob (schedule srt (SJFScheduler sj lg q) (currentTime s)) = (job, sch3)
    \<and> job \<in> set q
    \<and> (\<forall>other\<in>set q. remainingTime job \<le> remainingTime other)
    \<and> i < length (srt remainingTime q) \<and> job = srt remainingTime q ! i
    \<and> (\<forall>k<i. remainingTime job < remainingTime (srt remainingTime q ! k))
    \<and> readySet sch3 = erase (srt remainingTime q) i
    \<and> ganttChart (step srt s) = ganttChart s @ [(jobId job, currentTime s)]"
proof -
  let ?q2 = "srt remainingTime q"
  let ?i = "min_element remainingTime ?q2"
  let ?job = "?q2 ! ?i"
  let ?sch3 = "SJFScheduler (sj @ [?job]) lg (erase ?q2 ?i)"
  have ne: "?q2 \<noteq> []" using assms(1,3) by (simp add: sorts_Nil)
  have g: "getNextJob (schedule srt (SJFScheduler sj lg q) (currentTime s)) = (?job, ?sch3)"
    using ne by (simp add: Let_def)
  have in_q: "?job \<in> set q"
    using min_element_in [OF ne, of remainingTime] assms(1) by (simp add: sorts_set)
  have least: "\<forall>other\<in>set q. remainingTime ?job \<le> remainingTime other"
    using min_element_least [OF ne, of _ remainingTime] assms(1) by (simp add: sorts_set)
  have i: "?i < length ?q2" using min_element_spec [OF ne, of remainingTime] by simp
  have first: "\<forall>k<?i. remainingTime ?job < remainingTime (?q2 ! k)"
    using min_element_spec [OF ne, of remainingTime] by simp
  have gantt: "ganttChart (step srt s) = ganttChart s @ [(jobId ?job, currentTime s)]"
    by (rule step_gantt_SJF [OF assms g])
  show ?thesis
    using g in_q least i first gantt by (intro exI [of _ ?i] exI [of _ ?job] exI [of _ ?sch3]) simp
qed



theorem C6_SJF_selects_shortest_remaining_witness:
  "sorts sort_key
 \<and> admit (currentTime two_ready) (allJobs two_ready) (scheduler two_ready)
     = ([], SJFScheduler [] [] [Job_id 1 0 4 0, Job_id 2 0 2 0])
 \<and> [Job_id 1 0 4 0, Job_id 2 0 2 0] \<noteq> []
 \<and> (\<exists>i job sch3.
      getNextJob (schedule sort_key (SJFScheduler [] [] [Job_id 1 0 4 0, Job_id 2 0 2 0])
         (currentTime two_ready)) = (job, sch3)
    \<and> job \<in> set [Job_id 1 0 4 0, Job_id 2 0 2 0]
    \<and> (\<forall>other\<in>set [Job_id 1 0 4 0, Job_id 2 0 2 0]. remainingTime job \<le> remainingTime other)
    \<and> i < length (sort_key remainingTime [Job_id 1 0 4 0, Job_id 2 0 2 0])
    \<and> job = sort_key remainingTime [Job_id 1 0 4 0, Job_id 2 0 2 0] ! i
    \<and> (\<forall>k<i. remainingTime job
          < remainingTime (sort_key remainingTime [Job_id 1 0 4 0, Job_id 2 0 2 0] ! k))
    \<and> readySet sch3 = erase (sort_key remainingTime [Job_id 1 0 4 0, Job_id 2 0 2 0]) i
    \<and> ganttChart (step sort_key two_ready)
        = ganttChart two_ready @ [(jobId job, currentTime two_ready)])"
proof -
  have a: "admit (currentTime two_ready) (allJobs two_ready) (scheduler two_ready)
     = ([], SJFScheduler [] [] [Job_id 1 0 4 0, Job_id 2 0 2 0])"
    by (simp add: two_ready_def Simulator_new_def Job_id_def)
  have b: "[Job_id 1 0 4 0, Job_id 2 0 2 0] \<noteq> []" by simp
  show ?thesis
    using sorts_sort_key a b C6_SJF_selects_shortest_remaining [OF sorts_sort_key a b]
    by (intro conjI)
qed



section \<open>Priority with aging\<close>

lemma ageJob_max:
  "ageJob th inc t j =
     (if t - arrivalTime j > th then j\<lparr>priority := max 0 (priority j - inc)\<rparr> else j)"
  by (simp add: ageJob_def Let_def max_def)

text \<open>
  C7, as the code has it. \<^verbatim>\<open>schedule(currentTime)\<close> of the priority scheduler leaves a
  ready-set that holds, in sorted order, every job of the old ready-set, where a job with
  \<open>currentTime - arrivalTime > agingThreshold\<close> has got the priority
  \<open>max 0 (priority - agingIncrement)\<close> and every other job is unchanged. For a job whose
  priority is not negative and an agingIncrement that is not negative the new priority
  is not negative and not greater than the old one. On a ready-set that is not empty the
  following \<^verbatim>\<open>getNextJob\<close> returns a job of minimum priority, the first such job of the
  ready-set (every job in front of it has a strictly greater priority), erases it and
  logs it in scheduledJobs.
\<close>

theorem C7_priority_aging_and_selection:
  assumes "sorts srt"
  shows "mset (readySet (schedule srt (PriorityScheduler sj lg q th inc) t))
           = mset (map (\<lambda>j. if t - arrivalTime j > th
                             then j\<lparr>priority := max 0 (priority j - inc)\<rparr> else j) q)
       \<and> (0 \<le> inc \<longrightarrow> (\<forall>j\<in>set q. 0 \<le> priority j \<longrightarrow>
             0 \<le> priority (ageJob th inc t j) \<and> priority (ageJob th inc t j) \<le> priority j))
       \<and> (q \<noteq> [] \<longrightarrow> (\<exists>i job sch3.
             getNextJob (schedule srt (PriorityScheduler sj lg q th inc) t) = (job, sch3)
           \<and> i < length (readySet (schedule srt (PriorityScheduler sj lg q th inc) t))
           \<and> job = readySet (schedule srt (PriorityScheduler sj lg q th inc) t) ! i
           \<and> (\<forall>other\<in>set (readySet (schedule srt (PriorityScheduler sj lg q th inc) t)).
                 priority job \<le> priority other)
           \<and> (\<forall>k<i. priority job
                 < priority (readySet (schedule srt (PriorityScheduler sj lg q th inc) t) ! k))
           \<and> readySet sch3
                 = erase (readySet (schedule srt (PriorityScheduler sj lg q th inc) t)) i
           \<and> scheduledJobs sch3 = sj @ [job]))"
proof (intro conjI impI)
  show "mset (readySet (schedule srt (PriorityScheduler sj lg q th inc) t))
           = mset (map (\<lambda>j. if t - arrivalTime j > th
                             then j\<lparr>priority := max 0 (priority j - inc)\<rparr> else j) q)"
    using assms by (simp add: sorts_mset applyAging_def ageJob_max [abs_def])
next
  assume "0 \<le> inc"
  then show "\<forall>j\<in>set q. 0 \<le> priority j \<longrightarrow>
      0 \<le> priority (ageJob th inc t j) \<and> priority (ageJob th inc t j) \<le> priority j"
    by (simp add: ageJob_max)
next
  assume q: "q \<noteq> []"
  let ?q2 = "srt priority (applyAging th inc t q)"
  let ?i = "min_element priority ?q2"
  let ?job = "?q2 ! ?i"
  let ?sch3 = "PriorityScheduler (sj @ [?job]) lg (erase ?q2 ?i) th inc"
  have r: "readySet (schedule srt (PriorityScheduler sj lg q th inc) t) = ?q2" by simp
  have ne: "?q2 \<noteq> []" using assms q by (simp add: sorts_Nil applyAging_def)
  have g: "getNextJob (schedule srt (PriorityScheduler sj lg q th inc) t) = (?job, ?sch3)"
    using ne by (simp add: Let_def)
  have least: "\<forall>other\<in>set ?q2. priority ?job \<le> priority other"
    using min_element_least [OF ne, of _ priority] by simp
  have i: "?i < length ?q2" using min_element_spec [OF ne, of priority] by simp
  have first: "\<forall>k<?i. priority ?job < priority (?q2 ! k)"
    using min_element_spec [OF ne, of priority] by simp
  show "\<exists>i job sch3.
             getNextJob (schedule srt (PriorityScheduler sj lg q th inc) t) = (job, sch3)
           \<and> i < length (readySet (schedule srt (PriorityScheduler sj lg q th inc) t))
           \<and> job = readySet (schedule srt (PriorityScheduler sj lg q th inc) t) ! i
           \<and> (\<forall>other\<in>set (readySet (schedule srt (PriorityScheduler sj lg q th inc) t)).
                 priority job \<le> priority other)
           \<and> (\<forall>k<i. priority job
                 < priority (readySet (schedule srt (PriorityScheduler sj lg q th inc) t) ! k))
           \<and> readySet sch3
                 = erase (readySet (schedule srt (PriorityScheduler sj lg q th inc) t)) i
           \<and> scheduledJobs sch3 = sj @ [job]"
    unfolding r using g least i first
    by (intro exI [of _ ?i] exI [of _ ?job] exI [of _ ?sch3]) simp
qed

theorem C7_priority_aging_and_selection_witness:
  "sorts sort_key
 \<and> (0::int) \<le> 1
 \<and> 0 \<le> priority (Job_id 1 0 3 4) \<and> Job_id 1 0 3 4 \<in> set [Job_id 1 0 3 4, Job_id 2 8 2 1]
 \<and> [Job_id 1 0 3 4, Job_id 2 8 2 1] \<noteq> []
 \<and> priority (ageJob 5 1 10 (Job_id 1 0 3 4)) = 3
 \<and> 0 \<le> priority (ageJob 5 1 10 (Job_id 1 0 3 4))
 \<and> priority (ageJob 5 1 10 (Job_id 1 0 3 4)) \<le> priority (Job_id 1 0 3 4)
 \<and> mset (readySet (schedule sort_key (PriorityScheduler [] [] [Job_id 1 0 3 4, Job_id 2 8 2 1] 5 1) 10))
     = {#(Job_id 1 0 3 4)\<lparr>priority := 3\<rparr>, Job_id 2 8 2 1#}
 \<and> (\<exists>i job sch3.
       getNextJob (schedule sort_key (PriorityScheduler [] [] [Job_id 1 0 3 4, Job_id 2 8 2 1] 5 1) 10)
         = (job, sch3)
     \<and> job = readySet (schedule sort_key (PriorityScheduler [] [] [Job_id 1 0 3 4, Job_id 2 8 2 1] 5 1) 10) ! i
     \<and> readySet sch3
         = erase (readySet (schedule sort_key (PriorityScheduler [] [] [Job_id 1 0 3 4, Job_id 2 8 2 1] 5 1) 10)) i
     \<and> scheduledJobs sch3 = [] @ [job])"
proof -
  note c = C7_priority_aging_and_selection [OF sorts_sort_key,
      of "[]" "[]" "[Job_id 1 0 3 4, Job_id 2 8 2 1]" 5 1 10]
  have p: "0 \<le> priority (Job_id 1 0 3 4)" by (simp add: Job_id_def)
  have m: "Job_id 1 0 3 4 \<in> set [Job_id 1 0 3 4, Job_id 2 8 2 1]" by simp
  have ne: "[Job_id 1 0 3 4, Job_id 2 8 2 1] \<noteq> []" by simp
  have a3: "priority (ageJob 5 1 10 (Job_id 1 0 3 4)) = 3" by (simp add: ageJob_def Job_id_def)
  from c have c1: "mset (readySet (schedule sort_key (PriorityScheduler [] [] [Job_id 1 0 3 4, Job_id 2 8 2 1] 5 1) 10))
     = {#(Job_id 1 0 3 4)\<lparr>priority := 3\<rparr>, Job_id 2 8 2 1#}"
    by (simp add: Job_id_def)
  from c p m have c2: "0 \<le> priority (ageJob 5 1 10 (Job_id 1 0 3 4))
      \<and> priority (ageJob 5 1 10 (Job_id 1 0 3 4)) \<le> priority (Job_id 1 0 3 4)"
    by simp
  from c ne have c3: "\<exists>i job sch3.
       getNextJob (schedule sort_key (PriorityScheduler [] [] [Job_id 1 0 3 4, Job_id 2 8 2 1] 5 1) 10)
         = (job, sch3)
     \<and> job = readySet (schedule sort_key (PriorityScheduler [] [] [Job_id 1 0 3 4, Job_id 2 8 2 1] 5 1) 10) ! i
     \<and> readySet sch3
         = erase (readySet (schedule sort_key (PriorityScheduler [] [] [Job_id 1 0 3 4, Job_id 2 8 2 1] 5 1) 10)) i
     \<and> scheduledJobs sch3 = [] @ [job]"
    by blast
  show ?thesis using sorts_sort_key p m ne a3 c1 c2 c3 by (intro conjI) simp_all
qed

text \<open>
  The claim without the two conditions fails. A job loaded with priority -5 that has
  waited beyond the threshold gets priority 0, which is greater; before the threshold it
  keeps the negative priority; and with agingIncrement -1 a priority 2 becomes 3.
\<close>

theorem C7_negative_priority_counterexample:
  "priority (hd (readySet (schedule sort_key (PriorityScheduler [] [] [Job_id 1 0 1 (-5)] 5 1) 10))) = 0
 \<and> priority (Job_id 1 0 1 (-5)) = -5
 \<and> \<not> priority (hd (readySet (schedule sort_key (PriorityScheduler [] [] [Job_id 1 0 1 (-5)] 5 1) 10)))
       \<le> priority (Job_id 1 0 1 (-5))
 \<and> priority (hd (readySet (schedule sort_key (PriorityScheduler [] [] [Job_id 1 0 1 (-5)] 5 1) 0))) < 0
 \<and> priority (hd (readySet (schedule sort_key (PriorityScheduler [] [] [Job_id 1 0 1 2] 5 (-1)) 10))) = 3
 \<and> \<not> priority (hd (readySet (schedule sort_key (PriorityScheduler [] [] [Job_id 1 0 1 2] 5 (-1)) 10)))
       \<le> priority (Job_id 1 0 1 2)"
  by (simp add: applyAging_def ageJob_def Job_id_def)

section \<open>The loop of run\<close>

text \<open>An invariant of the iterations holds when \<^verbatim>\<open>run\<close> returns, and the loop condition is
  false then; a measure that decreases makes \<^verbatim>\<open>run\<close> return; a loop whose condition stays
  true never returns.\<close>

lemma run_rule:
  assumes "run srt s = Some y"
    and "I s"
    and "\<And>s'. I s' \<Longrightarrow> running s' \<Longrightarrow> I (step srt s')"
  shows "I y \<and> \<not> running y"
proof -
  have "(\<forall>s'. I s' \<and> running s' \<longrightarrow> I (step srt s')) \<longrightarrow> I s \<longrightarrow> I y \<and> \<not> running y"
    using assms(1)
  proof (induction srt s y rule: run.raw_induct [rotated 1, consumes 1])
    case (1 run' srt s y)
    show ?case
    proof (cases "running s")
      case True
      with 1(2) have "run' srt (step srt s) = Some y" by simp
      from 1(1) [OF this] True show ?thesis by blast
    next
      case False
      with 1(2) show ?thesis by simp
    qed
  qed
  with assms(2,3) show ?thesis by blast
qed

lemma run_terminates:
  fixes m :: "Simulator \<Rightarrow> nat"
  assumes "I s"
    and "\<And>s'. I s' \<Longrightarrow> running s' \<Longrightarrow> I (step srt s') \<and> m (step srt s') < m s'"
  shows "\<exists>y. run srt s = Some y"
  using assms(1)
proof (induction "m s" arbitrary: s rule: less_induct)
  case less
  show ?case
  proof (cases "running s")
    case True
    from assms(2) [OF less.prems True] have "I (step srt s)" "m (step srt s) < m s" by simp_all
    from less.hyps [OF this(2) this(1)] obtain y where "run srt (step srt s) = Some y" ..
    with True have "run srt s = Some y" by (subst run.simps) simp
    then show ?thesis ..
  next
    case False
    then have "run srt s = Some s" by (subst run.simps) simp
    then show ?thesis ..
  qed
qed

lemma run_diverges:
  assumes "I s"
    and "\<And>s'. I s' \<Longrightarrow> running s' \<and> I (step srt s')"
  shows "run srt s = None"
proof (cases "run srt s")
  case None
  then show ?thesis .
next
  case (Some y)
  from run_rule [OF Some, of I] assms have "I y \<and> \<not> running y" by blast
  with assms(2) show ?thesis by blast
qed

lemma run_iterates:
  assumes "run srt s = Some y"
  shows "\<exists>n. y = (step srt ^^ n) s \<and> \<not> running y \<and> (\<forall>k<n. running ((step srt ^^ k) s))"
proof -
  let ?I = "\<lambda>s'. \<exists>n. s' = (step srt ^^ n) s \<and> (\<forall>k<n. running ((step srt ^^ k) s))"
  have "?I y \<and> \<not> running y"
  proof (rule run_rule [OF assms, of ?I])
    show "?I s" by (rule exI [of _ 0]) simp
  next
    fix s' assume "?I s'" and r: "running s'"
    then obtain n where n: "s' = (step srt ^^ n) s" "\<forall>k<n. running ((step srt ^^ k) s)" by blast
    have "step srt s' = (step srt ^^ Suc n) s" using n(1) by simp
    moreover have "\<forall>k<Suc n. running ((step srt ^^ k) s)" using n r by (auto simp: less_Suc_eq)
    ultimately show "?I (step srt s')" by blast
  qed
  then show ?thesis by blast
qed

section \<open>One iteration\<close>

lemma addJob_readySet: "readySet (addJob sch j) = readySet sch @ [j]"
  by (cases sch) simp_all

lemma getNextJob_mset:
  assumes "readySet sch \<noteq> []" and "getNextJob sch = (job, sch')"
  shows "mset (readySet sch) = add_mset job (mset (readySet sch'))"
proof (cases sch)
  case (FCFSScheduler sj lg q)
  with assms show ?thesis by (cases q) auto
next
  case (SJFScheduler sj lg q)
  with assms have "q \<noteq> []" by simp
  from min_element_spec [OF this, of remainingTime] have "min_element remainingTime q < length q" by simp
  from erase_mset [OF this] assms SJFScheduler show ?thesis by (auto simp: Let_def)
next
  case (RoundRobinScheduler sj lg q tq)
  with assms show ?thesis by (cases q) auto
next
  case (PriorityScheduler sj lg q th inc)
  with assms have "q \<noteq> []" by simp
  from min_element_spec [OF this, of priority] have "min_element priority q < length q" by simp
  from erase_mset [OF this] assms PriorityScheduler show ?thesis by (auto simp: Let_def)
qed

lemma ageJob_priority: "\<exists>p. ageJob th inc t j = j\<lparr>priority := p\<rparr>"
proof (cases "t - arrivalTime j > th")
  case True
  then have "ageJob th inc t j = j\<lparr>priority := max 0 (priority j - inc)\<rparr>" by (simp add: ageJob_max)
  then show ?thesis ..
next
  case False
  then have "ageJob th inc t j = j\<lparr>priority := priority j\<rparr>" by (simp add: ageJob_max)
  then show ?thesis ..
qed

lemma schedule_spec:
  assumes "sorts srt"
  shows "\<exists>f. mset (readySet (schedule srt sch t)) = mset (map f (readySet sch))
            \<and> (\<forall>j. \<exists>p. f j = j\<lparr>priority := p\<rparr>)"
proof (cases sch)
  case (PriorityScheduler sj lg q th inc)
  then have "mset (readySet (schedule srt sch t)) = mset (map (ageJob th inc t) (readySet sch))"
    using assms by (simp add: sorts_mset applyAging_def)
  then show ?thesis using ageJob_priority by blast
next
  case (FCFSScheduler sj lg q)
  have id: "\<forall>j::Job. \<exists>p. id j = j\<lparr>priority := p\<rparr>"
    by (metis id_apply Job.surjective Job.update_convs(5))
  from FCFSScheduler have "mset (readySet (schedule srt sch t)) = mset (map id (readySet sch))" by simp
  with id show ?thesis by blast
next
  case (SJFScheduler sj lg q)
  have id: "\<forall>j::Job. \<exists>p. id j = j\<lparr>priority := p\<rparr>"
    by (metis id_apply Job.surjective Job.update_convs(5))
  from SJFScheduler assms have "mset (readySet (schedule srt sch t)) = mset (map id (readySet sch))"
    by (simp add: sorts_mset)
  with id show ?thesis by blast
next
  case (RoundRobinScheduler sj lg q tq)
  have id: "\<forall>j::Job. \<exists>p. id j = j\<lparr>priority := p\<rparr>"
    by (metis id_apply Job.surjective Job.update_convs(5))
  from RoundRobinScheduler have "mset (readySet (schedule srt sch t)) = mset (map id (readySet sch))" by simp
  with id show ?thesis by blast
qed

lemma step_cases [consumes 1, case_names idle finish requeue]:
  assumes "sorts srt"
  obtains
    (idle) sch2 where
      "readySet (scheduler s) = []"
      "\<forall>j\<in>set (allJobs s). currentTime s < arrivalTime j"
      "readySet sch2 = []"
      "step srt s = s\<lparr>currentTime := currentTime s + 1, scheduler := sch2\<rparr>"
  | (finish) f ready2 job0 sch3 where
      "mset ready2 = mset (map f (readySet (scheduler s)
                      @ filter (\<lambda>j. arrivalTime j \<le> currentTime s) (allJobs s)))"
      "\<And>j. \<exists>p. f j = j\<lparr>priority := p\<rparr>"
      "mset ready2 = add_mset job0 (mset (readySet sch3))"
      "remainingTime job0 = 1"
      "step srt s = s\<lparr>currentTime := currentTime s + 1, scheduler := sch3,
          allJobs := filter (\<lambda>j. \<not> arrivalTime j \<le> currentTime s) (allJobs s),
          finishedJobs := finishedJobs s
            @ [calculateMetrics ((ran (currentTime s) job0)\<lparr>completionTime := currentTime s + 1\<rparr>)],
          ganttChart := ganttChart s @ [(jobId job0, currentTime s)]\<rparr>"
  | (requeue) f ready2 job0 sch3 sch4 where
      "mset ready2 = mset (map f (readySet (scheduler s)
                      @ filter (\<lambda>j. arrivalTime j \<le> currentTime s) (allJobs s)))"
      "\<And>j. \<exists>p. f j = j\<lparr>priority := p\<rparr>"
      "mset ready2 = add_mset job0 (mset (readySet sch3))"
      "remainingTime job0 \<noteq> 1"
      "readySet sch4 = readySet sch3 @ [ran (currentTime s) job0]"
      "step srt s = s\<lparr>currentTime := currentTime s + 1, scheduler := sch4,
          allJobs := filter (\<lambda>j. \<not> arrivalTime j \<le> currentTime s) (allJobs s),
          ganttChart := ganttChart s @ [(jobId job0, currentTime s)]\<rparr>"
proof -
  let ?t = "currentTime s"
  obtain left sch1 where a: "admit ?t (allJobs s) (scheduler s) = (left, sch1)"
    by (cases "admit ?t (allJobs s) (scheduler s)")
  from admit_spec [OF a]
  have left: "left = filter (\<lambda>j. \<not> arrivalTime j \<le> ?t) (allJobs s)"
    and r1: "readySet sch1 = readySet (scheduler s) @ filter (\<lambda>j. arrivalTime j \<le> ?t) (allJobs s)"
    by simp_all
  let ?sch2 = "schedule srt sch1 ?t"
  from schedule_spec [OF assms, of sch1 ?t] obtain f
    where f: "mset (readySet ?sch2) = mset (map f (readySet sch1))"
      and fp: "\<And>j. \<exists>p. f j = j\<lparr>priority := p\<rparr>" by blast
  show thesis
  proof (cases "hasJobs ?sch2")
    case False
    then have e2: "readySet ?sch2 = []" by (simp add: hasJobs_readySet)
    with f have "readySet sch1 = []" by simp
    with r1 have e0: "readySet (scheduler s) = []"
      and none: "filter (\<lambda>j. arrivalTime j \<le> ?t) (allJobs s) = []" by simp_all
    from none have late: "\<forall>j\<in>set (allJobs s). ?t < arrivalTime j"
      by (auto simp: filter_empty_conv)
    then have "left = allJobs s" unfolding left by (auto simp: filter_id_conv)
    with False a have "step srt s = s\<lparr>currentTime := ?t + 1, scheduler := ?sch2\<rparr>"
      by (simp add: step_def Let_def)
    with e0 late e2 show thesis by (rule idle)
  next
    case True
    then have ne: "readySet ?sch2 \<noteq> []" by (simp add: hasJobs_readySet)
    obtain job0 sch3 where g: "getNextJob ?sch2 = (job0, sch3)" by (cases "getNextJob ?sch2")
    from getNextJob_mset [OF ne g]
    have m: "mset (readySet ?sch2) = add_mset job0 (mset (readySet sch3))" .
    have f': "mset (readySet ?sch2) = mset (map f (readySet (scheduler s)
                      @ filter (\<lambda>j. arrivalTime j \<le> ?t) (allJobs s)))"
      using f r1 by simp
    show thesis
    proof (cases "remainingTime job0 = 1")
      case one: True
      have "step srt s = s\<lparr>currentTime := ?t + 1, scheduler := sch3,
          allJobs := filter (\<lambda>j. \<not> arrivalTime j \<le> ?t) (allJobs s),
          finishedJobs := finishedJobs s
            @ [calculateMetrics ((ran ?t job0)\<lparr>completionTime := ?t + 1\<rparr>)],
          ganttChart := ganttChart s @ [(jobId job0, ?t)]\<rparr>"
        using True a g one left by (simp add: step_def ran_def Let_def)
      with f' fp m one show thesis by (rule finish)
    next
      case more: False
      have "step srt s = s\<lparr>currentTime := ?t + 1, scheduler := addJob sch3 (ran ?t job0),
          allJobs := filter (\<lambda>j. \<not> arrivalTime j \<le> ?t) (allJobs s),
          ganttChart := ganttChart s @ [(jobId job0, ?t)]\<rparr>"
        using True a g more left by (simp add: step_def ran_def Let_def)
      with f' fp m more addJob_readySet [of sch3 "ran ?t job0"] show thesis by (rule requeue)
    qed
  qed
qed

lemma mset_split_arrived:
  "mset (filter (\<lambda>j. \<not> arrivalTime j \<le> t) js) + mset (filter (\<lambda>j. arrivalTime j \<le> t) js) = mset js"
  by (induction js) auto

lemma image_mset_aged:
  assumes "\<And>j. \<exists>p. f j = j\<lparr>priority := p\<rparr>" and "\<And>j p. g (j\<lparr>priority := p\<rparr>) = g j"
  shows "image_mset g (mset (map f xs)) = image_mset g (mset xs)"
proof -
  have "g (f j) = g j" for j using assms(1) [of j] assms(2) by auto
  then show ?thesis by (induction xs) simp_all
qed

lemma selected_pending:
  assumes "mset ready2 = mset (map f (readySet (scheduler s)
                      @ filter (\<lambda>j. arrivalTime j \<le> currentTime s) (allJobs s)))"
    and "\<And>j. \<exists>p. f j = j\<lparr>priority := p\<rparr>"
    and "mset ready2 = add_mset job0 (mset left3)"
    and "\<And>j p. g (j\<lparr>priority := p\<rparr>) = g j"
  shows "image_mset g (pending s)
       = add_mset (g job0) (image_mset g (mset (filter (\<lambda>j. \<not> arrivalTime j \<le> currentTime s) (allJobs s))
            + mset left3))"
proof -
  let ?t = "currentTime s"
  let ?arr = "filter (\<lambda>j. arrivalTime j \<le> ?t) (allJobs s)"
  let ?left = "filter (\<lambda>j. \<not> arrivalTime j \<le> ?t) (allJobs s)"
  have "image_mset g (mset ready2) = image_mset g (mset (readySet (scheduler s) @ ?arr))"
    unfolding assms(1) by (rule image_mset_aged [OF assms(2) assms(4)])
  then have "add_mset (g job0) (image_mset g (mset left3))
      = image_mset g (mset (readySet (scheduler s))) + image_mset g (mset ?arr)"
    unfolding assms(3) by simp
  moreover have "image_mset g (pending s)
      = image_mset g (mset ?left) + image_mset g (mset ?arr) + image_mset g (mset (readySet (scheduler s)))"
    unfolding pending_def using mset_split_arrived [of ?t "allJobs s"]
    by (metis image_mset_union)
  ultimately show ?thesis by (simp add: ac_simps)
qed

section \<open>Termination\<close>

lemma horizon_ge: "currentTime s \<le> horizon s"
  unfolding horizon_def by (rule Max_ge) simp_all

lemma horizon_arrival: "j \<in> set (allJobs s) \<Longrightarrow> arrivalTime j \<le> horizon s"
  unfolding horizon_def by (rule Max_ge) simp_all

lemma horizon_le:
  assumes "currentTime s \<le> b" and "\<And>j. j \<in> set (allJobs s) \<Longrightarrow> arrivalTime j \<le> b"
  shows "horizon s \<le> b"
  unfolding horizon_def using assms by (intro Max.boundedI) auto

lemma wait_work:
  assumes "currentTime s' = currentTime s + 1" and "set (allJobs s') \<subseteq> set (allJobs s)"
  shows "wait s' \<le> wait s"
proof -
  have "horizon s' \<le> horizon s + 1"
  proof (rule horizon_le)
    show "currentTime s' \<le> horizon s + 1" using assms(1) horizon_ge [of s] by simp
  next
    fix j assume "j \<in> set (allJobs s')"
    with assms(2) have "j \<in> set (allJobs s)" by blast
    from horizon_arrival [OF this] show "arrivalTime j \<le> horizon s + 1" by simp
  qed
  then show ?thesis using assms(1) by (simp add: wait_def)
qed

lemma wait_idle:
  assumes "currentTime s' = currentTime s + 1" and "allJobs s' = allJobs s"
    and "allJobs s \<noteq> []" and "\<forall>j\<in>set (allJobs s). currentTime s < arrivalTime j"
  shows "wait s' < wait s"
proof -
  from assms(3) obtain j where j: "j \<in> set (allJobs s)" by (cases "allJobs s") auto
  with assms(4) have "currentTime s < arrivalTime j" by blast
  with horizon_arrival [OF j] have h: "currentTime s + 1 \<le> horizon s" by simp
  have "horizon s' \<le> horizon s"
  proof (rule horizon_le)
    show "currentTime s' \<le> horizon s" using assms(1) h by simp
  next
    fix k assume "k \<in> set (allJobs s')"
    then show "arrivalTime k \<le> horizon s" using assms(2) horizon_arrival by simp
  qed
  with h assms(1) show ?thesis by (simp add: wait_def)
qed

lemma work_image: "work s = (\<Sum>r\<in>#image_mset remainingTime (pending s). nat r)"
  by (simp add: work_def image_mset.compositionality comp_def)

lemma alive_image: "alive s = (\<forall>r\<in>#image_mset remainingTime (pending s). 1 \<le> r)"
  by (auto simp: alive_def)

lemma ran_remainingTime: "remainingTime (ran t j) = remainingTime j - 1"
  by (simp add: ran_def Let_def)

lemma step_alive:
  assumes "sorts srt" and "alive s" and "running s"
  shows "alive (step srt s) \<and> work (step srt s) + wait (step srt s) < work s + wait s"
  using assms(1)
proof (cases rule: step_cases [where s = s])
  case (idle sch2)
  have p: "pending (step srt s) = pending s" using idle by (simp add: pending_def)
  from assms(3) idle(1) have ne: "allJobs s \<noteq> []" by (simp add: running_def hasJobs_readySet)
  have "wait (step srt s) < wait s"
    by (rule wait_idle [OF _ _ ne idle(2)]) (simp_all add: idle(4))
  with p assms(2) show ?thesis by (simp add: alive_def work_def)
next
  case (finish f ready2 job0 sch3)
  let ?rest = "mset (filter (\<lambda>j. \<not> arrivalTime j \<le> currentTime s) (allJobs s)) + mset (readySet sch3)"
  have sel: "image_mset remainingTime (pending s)
      = add_mset (remainingTime job0) (image_mset remainingTime ?rest)"
    by (rule selected_pending [OF finish(1) finish(2) finish(3)]) simp
  have p: "pending (step srt s) = ?rest" by (simp add: finish(5) pending_def)
  have a: "alive (step srt s)" using assms(2) unfolding alive_image p sel by simp
  have w: "work s = 1 + work (step srt s)" unfolding work_image p sel using finish(4) by simp
  have "wait (step srt s) \<le> wait s" by (rule wait_work) (simp_all add: finish(5))
  with a w show ?thesis by simp
next
  case (requeue f ready2 job0 sch3 sch4)
  let ?rest = "mset (filter (\<lambda>j. \<not> arrivalTime j \<le> currentTime s) (allJobs s)) + mset (readySet sch3)"
  have sel: "image_mset remainingTime (pending s)
      = add_mset (remainingTime job0) (image_mset remainingTime ?rest)"
    by (rule selected_pending [OF requeue(1) requeue(2) requeue(3)]) simp
  have p: "pending (step srt s) = add_mset (ran (currentTime s) job0) ?rest"
    by (simp add: requeue(6) requeue(5) pending_def)
  from assms(2) have r0: "1 \<le> remainingTime job0" unfolding alive_image sel by simp
  with requeue(4) have r2: "2 \<le> remainingTime job0" by simp
  have a: "alive (step srt s)" using assms(2) r2 unfolding alive_image p sel
    by (simp add: ran_remainingTime)
  have w: "work s = 1 + work (step srt s)" unfolding work_image p sel using r2
    by (simp add: ran_remainingTime nat_diff_distrib)
  have "wait (step srt s) \<le> wait s" by (rule wait_work) (simp_all add: requeue(6))
  with a w show ?thesis by simp
qed

lemma alive_terminates:
  assumes "sorts srt" and "alive s"
  shows "\<exists>y. run srt s = Some y"
  by (rule run_terminates [of alive s srt "\<lambda>s. work s + wait s", OF assms(2)])
     (rule step_alive [OF assms(1)])

lemma setJobs_readySet: "sorts srt \<Longrightarrow> mset (readySet (setJobs srt sch js)) = mset js"
  by (cases sch) (simp_all add: sorts_mset)

lemma createSimulator_fields:
  "currentTime (createSimulator srt ui) = 0"
  "allJobs (createSimulator srt ui) = jobs ui"
  "finishedJobs (createSimulator srt ui) = []"
  "ganttChart (createSimulator srt ui) = []"
  by (simp_all add: createSimulator_def Simulator_new_def Let_def)

lemma createSimulator_readySet:
  "sorts srt \<Longrightarrow> mset (readySet (scheduler (createSimulator srt ui))) = mset (jobs ui)"
  by (simp add: createSimulator_def Simulator_new_def Let_def setJobs_readySet)

lemma createSimulator_pending:
  "sorts srt \<Longrightarrow> pending (createSimulator srt ui) = mset (jobs ui) + mset (jobs ui)"
  by (simp add: pending_def createSimulator_fields createSimulator_readySet)

lemma Simulator_new_pending:
  "readySet sch = [] \<Longrightarrow> pending (Simulator_new sch js) = mset js"
  by (simp add: pending_def Simulator_new_def)

lemma not_running: "\<not> running y \<longleftrightarrow> allJobs y = [] \<and> readySet (scheduler y) = []"
  by (simp add: running_def hasJobs_readySet)

text \<open>
  C8. For a job list in which every job has arrivalTime at least 0, burstTime at least 1
  and, as both constructors leave it, remainingTime equal to burstTime, \<^verbatim>\<open>run\<close> returns,
  both on the simulator \<^verbatim>\<open>createSimulator\<close> builds and on a simulator built over a scheduler
  with an empty ready-set, for each of the four schedulers and every \<^verbatim>\<open>std::sort\<close>. The
  state it returns has an empty backlog and an empty ready-set, it is reached by a number
  \<open>n\<close> of iterations, and before each of them the backlog or the ready-set was not empty.
\<close>

theorem C8_run_terminates:
  assumes "sorts srt"
    and "\<forall>j\<in>set js. 0 \<le> arrivalTime j \<and> 1 \<le> burstTime j \<and> remainingTime j = burstTime j"
    and "s = createSimulator srt ui \<and> jobs ui = js \<or> s = Simulator_new sch js \<and> readySet sch = []"
  shows "\<exists>y n. run srt s = Some y
           \<and> allJobs y = [] \<and> readySet (scheduler y) = []
           \<and> y = (step srt ^^ n) s
           \<and> (\<forall>k<n. allJobs ((step srt ^^ k) s) \<noteq> [] \<or> readySet (scheduler ((step srt ^^ k) s)) \<noteq> [])"
proof -
  from assms(3) have "pending s = mset js + mset js \<or> pending s = mset js"
    using createSimulator_pending [OF assms(1), of ui] Simulator_new_pending [of sch js] by auto
  with assms(2) have "alive s" by (auto simp: alive_def)
  from alive_terminates [OF assms(1) this] obtain y where y: "run srt s = Some y" ..
  from run_iterates [OF y] obtain n where
    "y = (step srt ^^ n) s" "\<not> running y" "\<forall>k<n. running ((step srt ^^ k) s)" by blast
  with y show ?thesis unfolding running_def hasJobs_readySet by blast
qed

theorem C8_run_terminates_witness:
  "sorts sort_key
 \<and> list_all (\<lambda>j. 0 \<le> arrivalTime j \<and> 1 \<le> burstTime j \<and> remainingTime j = burstTime j) scenario
 \<and> jobs (UIController_new\<lparr>jobs := scenario, currentAlgorithm := 1\<rparr>) = scenario
 \<and> (\<exists>y n. run sort_key (createSimulator sort_key (UIController_new\<lparr>jobs := scenario, currentAlgorithm := 1\<rparr>)) = Some y
           \<and> allJobs y = [] \<and> readySet (scheduler y) = []
           \<and> y = (step sort_key ^^ n) (createSimulator sort_key (UIController_new\<lparr>jobs := scenario, currentAlgorithm := 1\<rparr>)))"
proof -
  have wf: "\<forall>j\<in>set scenario. 0 \<le> arrivalTime j \<and> 1 \<le> burstTime j \<and> remainingTime j = burstTime j"
    by (simp add: scenario_def Job_id_def)
  have j: "jobs (UIController_new\<lparr>jobs := scenario, currentAlgorithm := 1\<rparr>) = scenario" by simp
  from C8_run_terminates [OF sorts_sort_key wf, of _ "UIController_new\<lparr>jobs := scenario, currentAlgorithm := 1\<rparr>"] j
  have "\<exists>y n. run sort_key (createSimulator sort_key (UIController_new\<lparr>jobs := scenario, currentAlgorithm := 1\<rparr>)) = Some y
           \<and> allJobs y = [] \<and> readySet (scheduler y) = []
           \<and> y = (step sort_key ^^ n) (createSimulator sort_key (UIController_new\<lparr>jobs := scenario, currentAlgorithm := 1\<rparr>))"
    by blast
  moreover have "list_all (\<lambda>j. 0 \<le> arrivalTime j \<and> 1 \<le> burstTime j \<and> remainingTime j = burstTime j) scenario"
    using wf by (simp add: list_all_iff)
  ultimately show ?thesis using sorts_sort_key j by blast
qed


section \<open>Metrics at completion\<close>

lemma calculateMetrics_ok: "metrics_ok (calculateMetrics j)"
  by (simp add: metrics_ok_def calculateMetrics_def Let_def)

lemma calculateMetrics_keeps:
  "remainingTime (calculateMetrics j) = remainingTime j"
  "completionTime (calculateMetrics j) = completionTime j"
  "arrivalTime (calculateMetrics j) = arrivalTime j"
  "burstTime (calculateMetrics j) = burstTime j"
  "startTime (calculateMetrics j) = startTime j"
  "jobId (calculateMetrics j) = jobId j"
  by (simp_all add: calculateMetrics_def Let_def)

lemma step_finishedJobs:
  "finishedJobs (step srt s) = finishedJobs s
   \<or> (\<exists>job. finishedJobs (step srt s) = finishedJobs s @ [job]
         \<and> remainingTime job = 0 \<and> completionTime job = currentTime s + 1 \<and> metrics_ok job)"
proof -
  obtain left sch1 where a: "admit (currentTime s) (allJobs s) (scheduler s) = (left, sch1)"
    by (cases "admit (currentTime s) (allJobs s) (scheduler s)")
  obtain job0 sch3 where g: "getNextJob (schedule srt sch1 (currentTime s)) = (job0, sch3)"
    by (cases "getNextJob (schedule srt sch1 (currentTime s))")
  show ?thesis
    using a g by (simp add: step_def Let_def calculateMetrics_ok calculateMetrics_keeps)
qed

lemma funpow_finishedJobs:
  "\<exists>ys. finishedJobs ((step srt ^^ (n + m)) s) = finishedJobs ((step srt ^^ n) s) @ ys
      \<and> (\<forall>j\<in>set ys. remainingTime j = 0 \<and> metrics_ok j)"
proof (induction m)
  case 0
  show ?case by simp
next
  case (Suc m)
  then obtain ys where ys: "finishedJobs ((step srt ^^ (n + m)) s) = finishedJobs ((step srt ^^ n) s) @ ys"
    "\<forall>j\<in>set ys. remainingTime j = 0 \<and> metrics_ok j" by blast
  let ?s = "(step srt ^^ (n + m)) s"
  have e: "(step srt ^^ (n + Suc m)) s = step srt ?s" by simp
  from step_finishedJobs [of srt ?s] show ?case
  proof
    assume "finishedJobs (step srt ?s) = finishedJobs ?s"
    with ys e show ?thesis by auto
  next
    assume "\<exists>job. finishedJobs (step srt ?s) = finishedJobs ?s @ [job]
         \<and> remainingTime job = 0 \<and> completionTime job = currentTime ?s + 1 \<and> metrics_ok job"
    then obtain job where "finishedJobs (step srt ?s) = finishedJobs ?s @ [job]"
      "remainingTime job = 0" "metrics_ok job" by blast
    with ys e have "finishedJobs ((step srt ^^ (n + Suc m)) s) = finishedJobs ((step srt ^^ n) s) @ (ys @ [job])
        \<and> (\<forall>j\<in>set (ys @ [job]). remainingTime j = 0 \<and> metrics_ok j)" by auto
    then show ?thesis by blast
  qed
qed

text \<open>
  C3. In a simulator that starts with no finished job, an iteration appends a job to
  finishedJobs only at the moment its remainingTime has reached 0, with completionTime the
  new current time and with \<open>turnaroundTime = completionTime - arrivalTime\<close> and
  \<open>waitingTime = turnaroundTime - burstTime\<close>; finishedJobs only grows at its end, so a
  finished job and its metrics stay as they were computed; every job of finishedJobs, after
  any number of iterations and when \<^verbatim>\<open>run\<close> returns, satisfies the two equations.
\<close>

theorem C3_metrics_at_completion:
  assumes "finishedJobs s = []"
  shows "(\<forall>n. \<forall>j\<in>set (finishedJobs ((step srt ^^ n) s)).
            remainingTime j = 0
          \<and> turnaroundTime j = completionTime j - arrivalTime j
          \<and> waitingTime j = turnaroundTime j - burstTime j)
       \<and> (\<forall>n m. \<exists>ys. finishedJobs ((step srt ^^ (n + m)) s) = finishedJobs ((step srt ^^ n) s) @ ys)
       \<and> (\<forall>n. finishedJobs ((step srt ^^ Suc n) s) = finishedJobs ((step srt ^^ n) s)
              \<or> (\<exists>job. finishedJobs ((step srt ^^ Suc n) s) = finishedJobs ((step srt ^^ n) s) @ [job]
                    \<and> remainingTime job = 0
                    \<and> completionTime job = currentTime ((step srt ^^ n) s) + 1
                    \<and> turnaroundTime job = completionTime job - arrivalTime job
                    \<and> waitingTime job = turnaroundTime job - burstTime job))
       \<and> (\<forall>y. run srt s = Some y \<longrightarrow> (\<forall>j\<in>set (finishedJobs y).
            remainingTime j = 0
          \<and> turnaroundTime j = completionTime j - arrivalTime j
          \<and> waitingTime j = turnaroundTime j - burstTime j))"
proof -
  have all: "\<forall>j\<in>set (finishedJobs ((step srt ^^ n) s)). remainingTime j = 0 \<and> metrics_ok j" for n
    using funpow_finishedJobs [where n = 0 and m = n and s = s and srt = srt] assms by auto
  have grow: "\<exists>ys. finishedJobs ((step srt ^^ (n + m)) s) = finishedJobs ((step srt ^^ n) s) @ ys" for n m
    using funpow_finishedJobs [where n = n and m = m and s = s and srt = srt] by blast
  have one: "finishedJobs ((step srt ^^ Suc n) s) = finishedJobs ((step srt ^^ n) s)
              \<or> (\<exists>job. finishedJobs ((step srt ^^ Suc n) s) = finishedJobs ((step srt ^^ n) s) @ [job]
                    \<and> remainingTime job = 0
                    \<and> completionTime job = currentTime ((step srt ^^ n) s) + 1
                    \<and> turnaroundTime job = completionTime job - arrivalTime job
                    \<and> waitingTime job = turnaroundTime job - burstTime job)" for n
    using step_finishedJobs [of srt "(step srt ^^ n) s"] by (simp add: metrics_ok_def)
  have ret: "\<forall>j\<in>set (finishedJobs y). remainingTime j = 0 \<and> metrics_ok j" if "run srt s = Some y" for y
    using run_iterates [OF that] all by blast
  show ?thesis using all grow one ret unfolding metrics_ok_def by blast
qed

theorem C3_metrics_at_completion_witness:
  "finishedJobs (Simulator_new (SJFScheduler [] [] []) scenario) = []
 \<and> run sort_key (Simulator_new (SJFScheduler [] [] []) scenario) \<noteq> None
 \<and> map (\<lambda>j. (jobId j, completionTime j, turnaroundTime j, waitingTime j))
       (finishedJobs (the (run sort_key (Simulator_new (SJFScheduler [] [] []) scenario))))
     = [(2, 3, 2, 0), (1, 6, 6, 2)]
 \<and> list_all (\<lambda>j. remainingTime j = 0
          \<and> turnaroundTime j = completionTime j - arrivalTime j
          \<and> waitingTime j = turnaroundTime j - burstTime j)
       (finishedJobs (the (run sort_key (Simulator_new (SJFScheduler [] [] []) scenario))))"
proof -
  have f: "finishedJobs (Simulator_new (SJFScheduler [] [] []) scenario) = []"
    by (simp add: Simulator_new_def)
  have r: "run sort_key (Simulator_new (SJFScheduler [] [] []) scenario) \<noteq> None"
    by code_simp
  then obtain y where y: "run sort_key (Simulator_new (SJFScheduler [] [] []) scenario) = Some y" by blast
  have m: "map (\<lambda>j. (jobId j, completionTime j, turnaroundTime j, waitingTime j))
       (finishedJobs (the (run sort_key (Simulator_new (SJFScheduler [] [] []) scenario))))
     = [(2, 3, 2, 0), (1, 6, 6, 2)]"
    by code_simp
  from C3_metrics_at_completion [OF f, of sort_key] y
  have "\<forall>j\<in>set (finishedJobs y). remainingTime j = 0
          \<and> turnaroundTime j = completionTime j - arrivalTime j
          \<and> waitingTime j = turnaroundTime j - burstTime j" by blast
  then have "list_all (\<lambda>j. remainingTime j = 0
          \<and> turnaroundTime j = completionTime j - arrivalTime j
          \<and> waitingTime j = turnaroundTime j - burstTime j)
       (finishedJobs (the (run sort_key (Simulator_new (SJFScheduler [] [] []) scenario))))"
    using y by (simp add: list_all_iff)
  with f r m show ?thesis by blast
qed


section \<open>FCFS, round robin and the quantum\<close>

lemma run_of_iterates:
  "(\<forall>k<n. running ((step srt ^^ k) s)) \<Longrightarrow> \<not> running ((step srt ^^ n) s)
   \<Longrightarrow> run srt s = Some ((step srt ^^ n) s)"
proof (induction n arbitrary: s)
  case 0
  then show ?case by (subst run.simps) simp
next
  case (Suc n)
  from Suc.prems(1) have r: "running s" by (metis funpow_0 zero_less_Suc)
  have "\<forall>k<n. running ((step srt ^^ k) (step srt s))"
    using Suc.prems(1) by (metis Suc_less_eq funpow_Suc_right comp_apply)
  moreover have "\<not> running ((step srt ^^ n) (step srt s))"
    using Suc.prems(2) by (simp add: funpow_swap1)
  ultimately have "run srt (step srt s) = Some ((step srt ^^ n) (step srt s))" by (rule Suc.IH)
  with r show ?case by (subst run.simps) (simp add: funpow_swap1)
qed

lemma admit_FCFS:
  "admit t js (FCFSScheduler sj lg q)
     = (filter (\<lambda>j. \<not> arrivalTime j \<le> t) js,
        FCFSScheduler sj lg (q @ filter (\<lambda>j. arrivalTime j \<le> t) js))"
  by (induction js arbitrary: q) simp_all

lemma admit_RR:
  "admit t js (RoundRobinScheduler sj lg q tq)
     = (filter (\<lambda>j. \<not> arrivalTime j \<le> t) js,
        RoundRobinScheduler sj lg (q @ filter (\<lambda>j. arrivalTime j \<le> t) js) tq)"
  by (induction js arbitrary: q) simp_all

lemma step_withQuantum:
  assumes "isQueue (scheduler s)"
  shows "step srt (withQuantum tq' s) = withQuantum tq' (step srt s)
       \<and> isQueue (scheduler (step srt s))"
proof (cases "scheduler s")
  case (FCFSScheduler sj lg q)
  then show ?thesis
    by (cases "q @ filter (\<lambda>j. arrivalTime j \<le> currentTime s) (allJobs s)")
       (simp_all add: step_def withQuantum_def admit_FCFS admit_RR Let_def)
next
  case (RoundRobinScheduler sj lg q tq)
  then show ?thesis
    by (cases "q @ filter (\<lambda>j. arrivalTime j \<le> currentTime s) (allJobs s)")
       (simp_all add: step_def withQuantum_def admit_FCFS admit_RR Let_def)
next
  case (SJFScheduler sj lg q)
  with assms show ?thesis by simp
next
  case (PriorityScheduler sj lg q th inc)
  with assms show ?thesis by simp
qed

lemma funpow_withQuantum:
  assumes "isQueue (scheduler s)"
  shows "(step srt ^^ n) (withQuantum tq' s) = withQuantum tq' ((step srt ^^ n) s)
       \<and> isQueue (scheduler ((step srt ^^ n) s))"
proof (induction n)
  case 0
  from assms show ?case by simp
next
  case (Suc n)
  with step_withQuantum [where s = "(step srt ^^ n) s" and srt = srt and tq' = tq'] show ?case by simp
qed

lemma running_withQuantum: "isQueue (scheduler s) \<Longrightarrow> running (withQuantum tq' s) = running s"
  by (cases "scheduler s") (simp_all add: running_def withQuantum_def)

lemma run_withQuantum:
  assumes "isQueue (scheduler s)"
  shows "run srt (withQuantum tq' s) = map_option (withQuantum tq') (run srt s)"
proof (cases "run srt s")
  case (Some y)
  from run_iterates [OF Some] obtain n where n: "y = (step srt ^^ n) s" "\<not> running y"
    "\<forall>k<n. running ((step srt ^^ k) s)" by blast
  have q: "isQueue (scheduler ((step srt ^^ k) s))" for k
    using funpow_withQuantum [OF assms] by simp
  have "\<forall>k<n. running ((step srt ^^ k) (withQuantum tq' s))"
    using n(3) funpow_withQuantum [OF assms, where srt = srt and tq' = tq'] running_withQuantum [OF q, where tq' = tq'] by simp
  moreover have "\<not> running ((step srt ^^ n) (withQuantum tq' s))"
    using n(1,2) funpow_withQuantum [OF assms, where srt = srt and n = n and tq' = tq'] running_withQuantum [OF q [of n], where tq' = tq'] by simp
  ultimately have "run srt (withQuantum tq' s) = Some ((step srt ^^ n) (withQuantum tq' s))"
    by (rule run_of_iterates)
  with Some n(1) funpow_withQuantum [OF assms, where srt = srt and n = n and tq' = tq'] show ?thesis by simp
next
  case None
  have "run srt (withQuantum tq' s) = None"
  proof (rule ccontr)
    assume "run srt (withQuantum tq' s) \<noteq> None"
    then obtain z where z: "run srt (withQuantum tq' s) = Some z" by blast
    from run_iterates [OF z] obtain n where n: "z = (step srt ^^ n) (withQuantum tq' s)" "\<not> running z"
      "\<forall>k<n. running ((step srt ^^ k) (withQuantum tq' s))" by blast
    have q: "isQueue (scheduler ((step srt ^^ k) s))" for k
      using funpow_withQuantum [OF assms] by simp
    have "\<forall>k<n. running ((step srt ^^ k) s)"
      using n(3) funpow_withQuantum [OF assms, where srt = srt and tq' = tq'] running_withQuantum [OF q, where tq' = tq'] by simp
    moreover have "\<not> running ((step srt ^^ n) s)"
      using n(1,2) funpow_withQuantum [OF assms, where srt = srt and n = n and tq' = tq'] running_withQuantum [OF q [of n], where tq' = tq'] by simp
    ultimately have "run srt s = Some ((step srt ^^ n) s)" by (rule run_of_iterates)
    with None show False by simp
  qed
  with None show ?thesis by simp
qed

lemma withQuantum_fields:
  "ganttChart (withQuantum tq' s) = ganttChart s"
  "finishedJobs (withQuantum tq' s) = finishedJobs s"
  "currentTime (withQuantum tq' s) = currentTime s"
  "allJobs (withQuantum tq' s) = allJobs s"
  by (simp_all add: withQuantum_def)

lemma createSimulator_RR:
  "createSimulator srt (ui\<lparr>currentAlgorithm := 2, rrQuantum := tq\<rparr>)
     = withQuantum tq (createSimulator srt (ui\<lparr>currentAlgorithm := 0\<rparr>))"
  by (simp add: createSimulator_def withQuantum_def Simulator_new_def)

lemma createSimulator_FCFS_isQueue:
  "isQueue (scheduler (createSimulator srt (ui\<lparr>currentAlgorithm := 0\<rparr>)))"
  by (simp add: createSimulator_def Simulator_new_def)

lemma Simulator_new_RR:
  "Simulator_new (RoundRobinScheduler [] [] [] tq) js
     = withQuantum tq (Simulator_new (FCFSScheduler [] [] []) js)"
  by (simp add: withQuantum_def Simulator_new_def)

lemma Simulator_new_FCFS_isQueue:
  "isQueue (scheduler (Simulator_new (FCFSScheduler [] [] []) js))"
  by (simp add: Simulator_new_def)

lemma outcome_withQuantum: "outcome (withQuantum tq' s) = outcome s"
  by (simp add: outcome_def withQuantum_fields)

lemma run_outcome_withQuantum:
  assumes "isQueue (scheduler s)"
  shows "map_option outcome (run srt (withQuantum tq' s)) = map_option outcome (run srt s)"
  unfolding run_withQuantum [OF assms]
  by (simp add: option.map_comp comp_def outcome_withQuantum)

lemma funpow_outcome_withQuantum:
  assumes "isQueue (scheduler s)"
  shows "outcome ((step srt ^^ n) (withQuantum tq' s)) = outcome ((step srt ^^ n) s)"
  using funpow_withQuantum [OF assms, where srt = srt and n = n and tq' = tq']
  by (simp add: outcome_withQuantum)

lemma step_one_unit:
  "currentTime (step srt s) = currentTime s + 1
   \<and> (ganttChart (step srt s) = ganttChart s
      \<or> (\<exists>i. ganttChart (step srt s) = ganttChart s @ [(i, currentTime s)]))"
proof -
  obtain left sch1 where a: "admit (currentTime s) (allJobs s) (scheduler s) = (left, sch1)"
    by (cases "admit (currentTime s) (allJobs s) (scheduler s)")
  obtain job0 sch3 where g: "getNextJob (schedule srt sch1 (currentTime s)) = (job0, sch3)"
    by (cases "getNextJob (schedule srt sch1 (currentTime s))")
  show ?thesis using a g by (simp add: step_def Let_def)
qed

text \<open>
  C4. For every job list, the simulator with the FCFS scheduler and the simulator with the
  round-robin scheduler (any quantum) have the same timeline: after every number of
  iterations, and when \<^verbatim>\<open>run\<close> returns (one returns exactly when the other does). This holds
  for the simulators \<^verbatim>\<open>createSimulator\<close> builds for algorithm 0 and algorithm 2 and for
  simulators over the two empty schedulers.
\<close>

theorem C4_FCFS_RoundRobin_same_timeline:
  "map_option ganttChart (run srt (createSimulator srt (ui\<lparr>currentAlgorithm := 0\<rparr>)))
     = map_option ganttChart (run srt (createSimulator srt (ui\<lparr>currentAlgorithm := 2\<rparr>)))
 \<and> map_option ganttChart (run srt (Simulator_new (FCFSScheduler [] [] []) js))
     = map_option ganttChart (run srt (Simulator_new (RoundRobinScheduler [] [] [] tq) js))
 \<and> (\<forall>n. ganttChart ((step srt ^^ n) (createSimulator srt (ui\<lparr>currentAlgorithm := 0\<rparr>)))
        = ganttChart ((step srt ^^ n) (createSimulator srt (ui\<lparr>currentAlgorithm := 2\<rparr>))))
 \<and> (\<forall>n. ganttChart ((step srt ^^ n) (Simulator_new (FCFSScheduler [] [] []) js))
        = ganttChart ((step srt ^^ n) (Simulator_new (RoundRobinScheduler [] [] [] tq) js)))"
proof -
  have g: "ganttChart = fst \<circ> outcome" by (simp add: fun_eq_iff outcome_def)
  have c: "createSimulator srt (ui\<lparr>currentAlgorithm := 2\<rparr>)
      = withQuantum (rrQuantum ui) (createSimulator srt (ui\<lparr>currentAlgorithm := 0\<rparr>))"
    using createSimulator_RR [where ui = ui and tq = "rrQuantum ui" and srt = srt] by simp
  have 1: "map_option ganttChart (run srt (createSimulator srt (ui\<lparr>currentAlgorithm := 0\<rparr>)))
     = map_option ganttChart (run srt (createSimulator srt (ui\<lparr>currentAlgorithm := 2\<rparr>)))"
    unfolding c g option.map_comp [symmetric]
    by (simp add: run_outcome_withQuantum [OF createSimulator_FCFS_isQueue])
  have 2: "map_option ganttChart (run srt (Simulator_new (FCFSScheduler [] [] []) js))
     = map_option ganttChart (run srt (Simulator_new (RoundRobinScheduler [] [] [] tq) js))"
    unfolding Simulator_new_RR g option.map_comp [symmetric]
    by (simp add: run_outcome_withQuantum [OF Simulator_new_FCFS_isQueue])
  have 3: "ganttChart ((step srt ^^ n) (createSimulator srt (ui\<lparr>currentAlgorithm := 0\<rparr>)))
        = ganttChart ((step srt ^^ n) (createSimulator srt (ui\<lparr>currentAlgorithm := 2\<rparr>)))" for n
    unfolding c using funpow_outcome_withQuantum [OF createSimulator_FCFS_isQueue, where n = n]
    by (simp add: outcome_def)
  have 4: "ganttChart ((step srt ^^ n) (Simulator_new (FCFSScheduler [] [] []) js))
        = ganttChart ((step srt ^^ n) (Simulator_new (RoundRobinScheduler [] [] [] tq) js))" for n
    unfolding Simulator_new_RR using funpow_outcome_withQuantum [OF Simulator_new_FCFS_isQueue, where n = n]
    by (simp add: outcome_def)
  from 1 2 3 4 show ?thesis by blast
qed

theorem C4_FCFS_RoundRobin_same_timeline_witness:
  "map_option ganttChart (run sort_key (Simulator_new (FCFSScheduler [] [] []) scenario))
     = Some [(1, 0), (1, 1), (2, 2), (1, 3), (2, 4), (1, 5)]
 \<and> map_option ganttChart (run sort_key (Simulator_new (RoundRobinScheduler [] [] [] 2) scenario))
     = Some [(1, 0), (1, 1), (2, 2), (1, 3), (2, 4), (1, 5)]"
proof -
  have "map_option ganttChart (run sort_key (Simulator_new (FCFSScheduler [] [] []) scenario))
     = Some [(1, 0), (1, 1), (2, 2), (1, 3), (2, 4), (1, 5)]"
    by code_simp
  with C4_FCFS_RoundRobin_same_timeline [where srt = sort_key and js = scenario and tq = 2] show ?thesis by simp
qed

text \<open>
  C5. For every job list and any two quanta, the round-robin simulators have the same
  timeline and the same finished jobs, after every number of iterations and when \<^verbatim>\<open>run\<close>
  returns; every iteration advances the time by one unit and appends at most one record,
  for the current time, so no job runs longer than one unit before the next selection.
\<close>

theorem C5_quantum_without_effect:
  "map_option outcome (run srt (createSimulator srt (ui\<lparr>currentAlgorithm := 2, rrQuantum := qa\<rparr>)))
     = map_option outcome (run srt (createSimulator srt (ui\<lparr>currentAlgorithm := 2, rrQuantum := qb\<rparr>)))
 \<and> map_option outcome (run srt (Simulator_new (RoundRobinScheduler [] [] [] qa) js))
     = map_option outcome (run srt (Simulator_new (RoundRobinScheduler [] [] [] qb) js))
 \<and> (\<forall>n. outcome ((step srt ^^ n) (createSimulator srt (ui\<lparr>currentAlgorithm := 2, rrQuantum := qa\<rparr>)))
        = outcome ((step srt ^^ n) (createSimulator srt (ui\<lparr>currentAlgorithm := 2, rrQuantum := qb\<rparr>))))
 \<and> (\<forall>n. outcome ((step srt ^^ n) (Simulator_new (RoundRobinScheduler [] [] [] qa) js))
        = outcome ((step srt ^^ n) (Simulator_new (RoundRobinScheduler [] [] [] qb) js)))
 \<and> (\<forall>s. currentTime (step srt s) = currentTime s + 1
        \<and> (ganttChart (step srt s) = ganttChart s
           \<or> (\<exists>i. ganttChart (step srt s) = ganttChart s @ [(i, currentTime s)])))"
proof -
  have 1: "map_option outcome (run srt (createSimulator srt (ui\<lparr>currentAlgorithm := 2, rrQuantum := q\<rparr>)))
     = map_option outcome (run srt (createSimulator srt (ui\<lparr>currentAlgorithm := 0\<rparr>)))" for q
    unfolding createSimulator_RR by (rule run_outcome_withQuantum [OF createSimulator_FCFS_isQueue])
  have 2: "map_option outcome (run srt (Simulator_new (RoundRobinScheduler [] [] [] q) js))
     = map_option outcome (run srt (Simulator_new (FCFSScheduler [] [] []) js))" for q
    unfolding Simulator_new_RR by (rule run_outcome_withQuantum [OF Simulator_new_FCFS_isQueue])
  have 3: "outcome ((step srt ^^ n) (createSimulator srt (ui\<lparr>currentAlgorithm := 2, rrQuantum := q\<rparr>)))
        = outcome ((step srt ^^ n) (createSimulator srt (ui\<lparr>currentAlgorithm := 0\<rparr>)))" for n q
    unfolding createSimulator_RR by (rule funpow_outcome_withQuantum [OF createSimulator_FCFS_isQueue])
  have 4: "outcome ((step srt ^^ n) (Simulator_new (RoundRobinScheduler [] [] [] q) js))
        = outcome ((step srt ^^ n) (Simulator_new (FCFSScheduler [] [] []) js))" for n q
    unfolding Simulator_new_RR by (rule funpow_outcome_withQuantum [OF Simulator_new_FCFS_isQueue])
  show ?thesis using 1 2 3 4 step_one_unit by simp
qed

theorem C5_quantum_without_effect_witness:
  "map_option ganttChart (run sort_key (Simulator_new (RoundRobinScheduler [] [] [] 1) scenario))
     = Some [(1, 0), (1, 1), (2, 2), (1, 3), (2, 4), (1, 5)]
 \<and> map_option outcome (run sort_key (Simulator_new (RoundRobinScheduler [] [] [] 1) scenario))
     = map_option outcome (run sort_key (Simulator_new (RoundRobinScheduler [] [] [] 4) scenario))"
proof -
  have "map_option ganttChart (run sort_key (Simulator_new (RoundRobinScheduler [] [] [] 1) scenario))
     = Some [(1, 0), (1, 1), (2, 2), (1, 3), (2, 4), (1, 5)]"
    by code_simp
  with C5_quantum_without_effect [where srt = sort_key and qa = 1 and qb = 4 and js = scenario] show ?thesis by simp
qed


section \<open>A job with burstTime 0\<close>

lemma stuck_image: "stuck s = (\<exists>r\<in>#image_mset remainingTime (pending s). r \<le> 0)"
  by (auto simp: stuck_def)

lemma stuck_running: "stuck s \<Longrightarrow> running s"
  by (auto simp: stuck_def pending_def running_def hasJobs_readySet)

lemma step_stuck:
  assumes "sorts srt" and "stuck s"
  shows "stuck (step srt s)"
  using assms(1)
proof (cases rule: step_cases [where s = s])
  case (idle sch2)
  have "pending (step srt s) = pending s" using idle by (simp add: pending_def)
  with assms(2) show ?thesis by (simp add: stuck_def)
next
  case (finish f ready2 job0 sch3)
  let ?rest = "mset (filter (\<lambda>j. \<not> arrivalTime j \<le> currentTime s) (allJobs s)) + mset (readySet sch3)"
  have sel: "image_mset remainingTime (pending s)
      = add_mset (remainingTime job0) (image_mset remainingTime ?rest)"
    by (rule selected_pending [OF finish(1) finish(2) finish(3)]) simp
  have p: "pending (step srt s) = ?rest" by (simp add: finish(5) pending_def)
  from assms(2) finish(4) show ?thesis unfolding stuck_image p sel by simp
next
  case (requeue f ready2 job0 sch3 sch4)
  let ?rest = "mset (filter (\<lambda>j. \<not> arrivalTime j \<le> currentTime s) (allJobs s)) + mset (readySet sch3)"
  have sel: "image_mset remainingTime (pending s)
      = add_mset (remainingTime job0) (image_mset remainingTime ?rest)"
    by (rule selected_pending [OF requeue(1) requeue(2) requeue(3)]) simp
  have p: "pending (step srt s) = add_mset (ran (currentTime s) job0) ?rest"
    by (simp add: requeue(6) requeue(5) pending_def)
  from assms(2) show ?thesis unfolding stuck_image p sel
    by (auto simp: ran_remainingTime)
qed

lemma stuck_never_returns:
  assumes "sorts srt" and "stuck s"
  shows "run srt s = None"
  by (rule run_diverges [of stuck, OF assms(2)]) (simp add: stuck_running step_stuck [OF assms(1)])

lemma ran_burstTime: "burstTime (ran t j) = burstTime j"
  by (simp add: ran_def Let_def)

lemma ran_jobId: "jobId (ran t j) = jobId j"
  by (simp add: ran_def Let_def)

lemma zero_held_image:
  "zero_held s = ((\<forall>x\<in>#image_mset (\<lambda>j. (burstTime j, remainingTime j)) (pending s). fst x = 0 \<longrightarrow> snd x \<le> 0)
     \<and> (\<forall>j\<in>set (finishedJobs s). burstTime j \<noteq> 0))"
  by (auto simp: zero_held_def)

lemma step_zero_held:
  assumes "sorts srt" and "zero_held s"
  shows "zero_held (step srt s)"
  using assms(1)
proof (cases rule: step_cases [where s = s])
  case (idle sch2)
  have "pending (step srt s) = pending s" "finishedJobs (step srt s) = finishedJobs s"
    using idle by (simp_all add: pending_def)
  with assms(2) show ?thesis by (simp add: zero_held_def)
next
  case (finish f ready2 job0 sch3)
  let ?g = "\<lambda>j. (burstTime j, remainingTime j)"
  let ?rest = "mset (filter (\<lambda>j. \<not> arrivalTime j \<le> currentTime s) (allJobs s)) + mset (readySet sch3)"
  have sel: "image_mset ?g (pending s) = add_mset (?g job0) (image_mset ?g ?rest)"
    by (rule selected_pending [OF finish(1) finish(2) finish(3)]) simp
  have p: "pending (step srt s) = ?rest" by (simp add: finish(5) pending_def)
  have fin: "finishedJobs (step srt s) = finishedJobs s
      @ [calculateMetrics ((ran (currentTime s) job0)\<lparr>completionTime := currentTime s + 1\<rparr>)]"
    by (simp add: finish(5))
  from assms(2) finish(4) have "burstTime job0 \<noteq> 0" unfolding zero_held_image sel by auto
  with assms(2) show ?thesis unfolding zero_held_image p sel fin
    by (simp add: calculateMetrics_keeps ran_burstTime)
next
  case (requeue f ready2 job0 sch3 sch4)
  let ?g = "\<lambda>j. (burstTime j, remainingTime j)"
  let ?rest = "mset (filter (\<lambda>j. \<not> arrivalTime j \<le> currentTime s) (allJobs s)) + mset (readySet sch3)"
  have sel: "image_mset ?g (pending s) = add_mset (?g job0) (image_mset ?g ?rest)"
    by (rule selected_pending [OF requeue(1) requeue(2) requeue(3)]) simp
  have p: "pending (step srt s) = add_mset (ran (currentTime s) job0) ?rest"
    by (simp add: requeue(6) requeue(5) pending_def)
  have fin: "finishedJobs (step srt s) = finishedJobs s" by (simp add: requeue(6))
  from assms(2) show ?thesis unfolding zero_held_image p sel fin
    by (auto simp: ran_burstTime ran_remainingTime)
qed

lemma funpow_zero_held:
  assumes "sorts srt" and "zero_held s"
  shows "zero_held ((step srt ^^ n) s)"
  by (induction n) (simp_all add: assms step_zero_held)

lemma lone_job_selected:
  assumes "sorts srt"
    and "readySet (scheduler s) @ filter (\<lambda>j. arrivalTime j \<le> currentTime s) (allJobs s) = [z]"
    and "remainingTime z \<le> 0"
  shows "ganttChart (step srt s) = ganttChart s @ [(jobId z, currentTime s)]
       \<and> (\<exists>z'. readySet (scheduler (step srt s)) = [z'] \<and> jobId z' = jobId z
              \<and> remainingTime z' = remainingTime z - 1)
       \<and> finishedJobs (step srt s) = finishedJobs s"
  using assms(1)
proof (cases rule: step_cases [where s = s])
  case (idle sch2)
  then have "filter (\<lambda>j. arrivalTime j \<le> currentTime s) (allJobs s) = []"
    by (auto simp: filter_empty_conv)
  with idle(1) assms(2) show ?thesis by simp
next
  case (finish f ready2 job0 sch3)
  from finish(1,3) assms(2) have "job0 = f z" by simp
  with finish(2) [of z] have "remainingTime job0 = remainingTime z" by auto
  with finish(4) assms(3) show ?thesis by simp
next
  case (requeue f ready2 job0 sch3 sch4)
  from requeue(1,3) assms(2) have j: "job0 = f z" and e: "readySet sch3 = []" by simp_all
  from j requeue(2) [of z] have r: "remainingTime job0 = remainingTime z" "jobId job0 = jobId z" by auto
  have "readySet (scheduler (step srt s)) = [ran (currentTime s) job0]"
    by (simp add: requeue(6) requeue(5) e)
  with r show ?thesis by (simp add: requeue(6) ran_remainingTime ran_jobId)
qed

text \<open>
  C9, as the code has it. For a job list, of jobs as the constructors leave them, that
  contains a job \<open>z\<close> with burstTime 0: no job with burstTime 0 is ever appended to
  finishedJobs, and \<^verbatim>\<open>run\<close> never returns. The job is not kept from selection: in an
  iteration where it is the only job ready after admission it is selected, its record is
  appended to the timeline, and it is put back with remainingTime -1.
\<close>

theorem C9_zero_burst_never_finishes:
  assumes "sorts srt"
    and "\<forall>j\<in>set js. remainingTime j = burstTime j"
    and "z \<in> set js" and "burstTime z = 0"
    and "s = createSimulator srt ui \<and> jobs ui = js \<or> s = Simulator_new sch js \<and> readySet sch = []"
  shows "(\<forall>n. \<forall>j\<in>set (finishedJobs ((step srt ^^ n) s)). burstTime j \<noteq> 0)
       \<and> run srt s = None
       \<and> (\<forall>s'. readySet (scheduler s') @ filter (\<lambda>j. arrivalTime j \<le> currentTime s') (allJobs s') = [z]
             \<longrightarrow> ganttChart (step srt s') = ganttChart s' @ [(jobId z, currentTime s')]
               \<and> (\<exists>z'. readySet (scheduler (step srt s')) = [z'] \<and> jobId z' = jobId z
                      \<and> remainingTime z' = remainingTime z - 1)
               \<and> finishedJobs (step srt s') = finishedJobs s')"
proof -
  from assms(5) have p: "pending s = mset js + mset js \<or> pending s = mset js"
    using createSimulator_pending [OF assms(1), of ui] Simulator_new_pending [of sch js] by auto
  from assms(5) have f: "finishedJobs s = []"
    by (auto simp: createSimulator_fields Simulator_new_def)
  from p assms(2) f have "zero_held s" by (auto simp: zero_held_def)
  from funpow_zero_held [OF assms(1) this]
  have 1: "\<forall>n. \<forall>j\<in>set (finishedJobs ((step srt ^^ n) s)). burstTime j \<noteq> 0"
    by (simp add: zero_held_def)
  from assms(2,3,4) have rz: "remainingTime z \<le> 0" by simp
  with p assms(3) have "stuck s" by (auto simp: stuck_def)
  from stuck_never_returns [OF assms(1) this] have 2: "run srt s = None" .
  from 1 2 lone_job_selected [OF assms(1) _ rz] show ?thesis by blast
qed

theorem C9_zero_burst_never_finishes_witness:
  "sorts sort_key
 \<and> list_all (\<lambda>j. remainingTime j = burstTime j) zero_burst
 \<and> Job_id 1 0 0 0 \<in> set zero_burst \<and> burstTime (Job_id 1 0 0 0) = 0
 \<and> readySet (FCFSScheduler [] [] []) = []
 \<and> run sort_key (Simulator_new (FCFSScheduler [] [] []) zero_burst) = None
 \<and> finishedJobs ((step sort_key ^^ 3) (Simulator_new (FCFSScheduler [] [] []) zero_burst)) = []
 \<and> ganttChart (step sort_key (Simulator_new (FCFSScheduler [] [] []) zero_burst)) = [(1, 0)]"
proof -
  have a: "\<forall>j\<in>set zero_burst. remainingTime j = burstTime j" by (simp add: zero_burst_def Job_id_def)
  have b: "Job_id 1 0 0 0 \<in> set zero_burst" by (simp add: zero_burst_def)
  have c: "burstTime (Job_id 1 0 0 0) = 0" by (simp add: Job_id_def)
  have d: "readySet (FCFSScheduler [] [] []) = []" by simp
  note t = C9_zero_burst_never_finishes [OF sorts_sort_key a b c,
      where s = "Simulator_new (FCFSScheduler [] [] []) zero_burst" and sch = "FCFSScheduler [] [] []"]
  from t d have 1: "run sort_key (Simulator_new (FCFSScheduler [] [] []) zero_burst) = None" by blast
  have 2: "finishedJobs ((step sort_key ^^ 3) (Simulator_new (FCFSScheduler [] [] []) zero_burst)) = []"
    by code_simp
  have 3: "ganttChart (step sort_key (Simulator_new (FCFSScheduler [] [] []) zero_burst)) = [(1, 0)]"
    by code_simp
  from a have "list_all (\<lambda>j. remainingTime j = burstTime j) zero_burst" by (simp add: list_all_iff)
  with sorts_sort_key b c d 1 2 3 show ?thesis by blast
qed

text \<open>
  The claim that such a job is never selected fails: the job with id 1 and burstTime 0 is
  executed at time 0 (and again at times 1 and 2), with remainingTime -1 afterwards.
\<close>

theorem C9_zero_burst_selected_counterexample:
  "burstTime (Job_id 1 0 0 0) = 0
 \<and> ganttChart (step sort_key (Simulator_new (FCFSScheduler [] [] []) [Job_id 1 0 0 0])) = [(1, 0)]
 \<and> map remainingTime (readySet (scheduler (step sort_key (Simulator_new (FCFSScheduler [] [] []) [Job_id 1 0 0 0]))))
     = [-1]
 \<and> ganttChart (step sort_key (createSimulator sort_key (UIController_new\<lparr>jobs := [Job_id 1 0 0 0]\<rparr>)))
     = [(1, 0)]
 \<and> ganttChart ((step sort_key ^^ 3) (Simulator_new (FCFSScheduler [] [] []) [Job_id 1 0 0 0]))
     = [(1, 0), (1, 1), (1, 2)]"
  by code_simp


section \<open>The timeline and the work\<close>

lemma owed_image:
  "owed s = int (length (ganttChart s)) + sum_mset (image_mset remainingTime (pending s))"
  by (simp add: owed_def)

lemma step_owed:
  assumes "sorts srt"
  shows "owed (step srt s) = owed s"
  using assms
proof (cases rule: step_cases [where s = s])
  case (idle sch2)
  have "pending (step srt s) = pending s" "ganttChart (step srt s) = ganttChart s"
    using idle by (simp_all add: pending_def)
  then show ?thesis by (simp add: owed_def)
next
  case (finish f ready2 job0 sch3)
  let ?rest = "mset (filter (\<lambda>j. \<not> arrivalTime j \<le> currentTime s) (allJobs s)) + mset (readySet sch3)"
  have sel: "image_mset remainingTime (pending s)
      = add_mset (remainingTime job0) (image_mset remainingTime ?rest)"
    by (rule selected_pending [OF finish(1) finish(2) finish(3)]) simp
  have p: "pending (step srt s) = ?rest" by (simp add: finish(5) pending_def)
  have g: "ganttChart (step srt s) = ganttChart s @ [(jobId job0, currentTime s)]"
    by (simp add: finish(5))
  show ?thesis unfolding owed_image p sel g using finish(4) by simp
next
  case (requeue f ready2 job0 sch3 sch4)
  let ?rest = "mset (filter (\<lambda>j. \<not> arrivalTime j \<le> currentTime s) (allJobs s)) + mset (readySet sch3)"
  have sel: "image_mset remainingTime (pending s)
      = add_mset (remainingTime job0) (image_mset remainingTime ?rest)"
    by (rule selected_pending [OF requeue(1) requeue(2) requeue(3)]) simp
  have p: "pending (step srt s) = add_mset (ran (currentTime s) job0) ?rest"
    by (simp add: requeue(6) requeue(5) pending_def)
  have g: "ganttChart (step srt s) = ganttChart s @ [(jobId job0, currentTime s)]"
    by (simp add: requeue(6))
  show ?thesis unfolding owed_image p sel g by (simp add: ran_remainingTime)
qed

lemma run_owed:
  assumes "sorts srt" and "run srt s = Some y"
  shows "int (length (ganttChart y)) = owed s"
proof -
  have "owed y = owed s \<and> \<not> running y"
    by (rule run_rule [OF assms(2), of "\<lambda>s'. owed s' = owed s"]) (simp_all add: step_owed [OF assms(1)])
  then have "owed y = owed s" "pending y = {#}" by (simp_all add: not_running pending_def)
  then show ?thesis by (simp add: owed_def)
qed

lemma sum_mset_fresh:
  "\<forall>j\<in>set js. remainingTime j = burstTime j
   \<Longrightarrow> (\<Sum>j\<in>#mset js. remainingTime j) = (\<Sum>j\<leftarrow>js. burstTime j)"
  by (induction js) simp_all

text \<open>With an empty scheduler the timeline has one record for each unit of burst time.\<close>

lemma timeline_length_empty_scheduler:
  assumes "sorts srt" and "readySet sch = []"
    and "\<forall>j\<in>set js. remainingTime j = burstTime j"
    and "run srt (Simulator_new sch js) = Some y"
  shows "int (length (ganttChart y)) = (\<Sum>j\<leftarrow>js. burstTime j)"
proof -
  have "owed (Simulator_new sch js) = (\<Sum>j\<in>#mset js. remainingTime j)"
    by (simp add: owed_def Simulator_new_pending [OF assms(2)]) (simp add: Simulator_new_def)
  with run_owed [OF assms(1,4)] sum_mset_fresh [OF assms(3)] show ?thesis by simp
qed

text \<open>The simulator of \<^verbatim>\<open>createSimulator\<close> holds every job twice, and so does its timeline.\<close>

lemma timeline_length_createSimulator:
  assumes "sorts srt"
    and "\<forall>j\<in>set (jobs ui). remainingTime j = burstTime j"
    and "run srt (createSimulator srt ui) = Some y"
  shows "int (length (ganttChart y)) = 2 * (\<Sum>j\<leftarrow>jobs ui. burstTime j)"
proof -
  have "owed (createSimulator srt ui) = 2 * (\<Sum>j\<in>#mset (jobs ui). remainingTime j)"
    by (simp add: owed_def createSimulator_pending [OF assms(1)] createSimulator_fields)
  with run_owed [OF assms(1,3)] sum_mset_fresh [OF assms(2)] show ?thesis by simp
qed

text \<open>
  C1 at the job list \<open>[Job(1, 0, 1, 0)]\<close> of the user interface. \<^verbatim>\<open>createSimulator\<close> loads
  the jobs into the scheduler with \<^verbatim>\<open>setJobs\<close> and hands the same jobs to the simulator as
  its backlog, so \<^verbatim>\<open>run\<close> executes the job twice: the timeline has the two records (1, 0)
  and (1, 1) where the sum of the burst times is 1, and job 1 is finished twice. Over an
  empty scheduler the same job list gives the one record (1, 0).
\<close>

theorem C1_createSimulator_runs_job_twice:
  "map_option ganttChart (run srt (createSimulator srt once_loaded)) = Some [(1, 0), (1, 1)]
 \<and> map_option (length \<circ> ganttChart) (run srt (createSimulator srt once_loaded)) = Some 2
 \<and> (\<Sum>j\<leftarrow>jobs once_loaded. burstTime j) = 1
 \<and> map_option (map jobId \<circ> finishedJobs) (run srt (createSimulator srt once_loaded)) = Some [1, 1]
 \<and> map_option ganttChart (run srt (Simulator_new (FCFSScheduler [] [] []) (jobs once_loaded)))
     = Some [(1, 0)]"
  by code_simp

section \<open>Start, completion and waiting time\<close>

lemma timely_priority: "timely t (j\<lparr>priority := p\<rparr>) = timely t j"
  by (simp add: timely_def)

lemma timely_later: "timely t j \<Longrightarrow> timely (t + 1) j"
  by (auto simp: timely_def)

lemma timely_ran: "timely t j \<Longrightarrow> timely (t + 1) (ran t j)"
  by (auto simp: timely_def ran_def Let_def)

lemma done_ok_finish:
  assumes "timely t j" and "remainingTime j = 1"
  shows "done_ok (calculateMetrics ((ran t j)\<lparr>completionTime := t + 1\<rparr>))"
  using assms by (auto simp: timely_def done_ok_def calculateMetrics_def ran_def Let_def)

lemma selected_timely:
  assumes "orderly s"
    and "mset ready2 = mset (map f (readySet (scheduler s)
                      @ filter (\<lambda>j. arrivalTime j \<le> currentTime s) (allJobs s)))"
    and "\<And>j. \<exists>p. f j = j\<lparr>priority := p\<rparr>"
    and "mset ready2 = add_mset job0 (mset ready3)"
  shows "timely (currentTime s) job0 \<and> (\<forall>j\<in>set ready3. timely (currentTime s) j)"
proof -
  let ?t = "currentTime s"
  let ?xs = "readySet (scheduler s) @ filter (\<lambda>j. arrivalTime j \<le> ?t) (allJobs s)"
  have "timely ?t j" if "j \<in> set ?xs" for j
    using that assms(1) by (auto simp: orderly_def list_all_iff timely_def)
  moreover have "set ready2 = f ` set ?xs" using mset_eq_setD [OF assms(2)] by (simp add: image_Un)
  ultimately have r2: "timely ?t j" if "j \<in> set ready2" for j
  proof -
    from that \<open>set ready2 = f ` set ?xs\<close> obtain x where x: "x \<in> set ?xs" "j = f x" by blast
    from assms(3) [of x] obtain p where "f x = x\<lparr>priority := p\<rparr>" ..
    with x \<open>\<And>j. j \<in> set ?xs \<Longrightarrow> timely ?t j\<close> show ?thesis by (simp add: timely_priority)
  qed
  have "set ready2 = insert job0 (set ready3)"
    using arg_cong [OF assms(4), of set_mset] by simp
  with r2 show ?thesis by simp
qed

lemma step_orderly:
  assumes "sorts srt" and "orderly s"
  shows "orderly (step srt s)"
  using assms(1)
proof (cases rule: step_cases [where s = s])
  case (idle sch2)
  with assms(2) show ?thesis by (simp add: orderly_def)
next
  case (finish f ready2 job0 sch3)
  from selected_timely [OF assms(2) finish(1) finish(2) finish(3)]
  have t0: "timely (currentTime s) job0" and t3: "\<forall>j\<in>set (readySet sch3). timely (currentTime s) j"
    by simp_all
  from t3 have "list_all (timely (currentTime s + 1)) (readySet sch3)"
    by (simp add: list_all_iff timely_later)
  moreover have "done_ok (calculateMetrics ((ran (currentTime s) job0)\<lparr>completionTime := currentTime s + 1\<rparr>))"
    by (rule done_ok_finish [OF t0 finish(4)])
  ultimately show ?thesis using assms(2) by (simp add: finish(5) orderly_def list_all_iff)
next
  case (requeue f ready2 job0 sch3 sch4)
  from selected_timely [OF assms(2) requeue(1) requeue(2) requeue(3)]
  have t0: "timely (currentTime s) job0" and t3: "\<forall>j\<in>set (readySet sch3). timely (currentTime s) j"
    by simp_all
  from t3 timely_ran [OF t0] have "list_all (timely (currentTime s + 1)) (readySet sch4)"
    by (simp add: requeue(5) list_all_iff timely_later)
  then show ?thesis using assms(2) by (simp add: requeue(6) orderly_def list_all_iff)
qed

text \<open>With an empty scheduler every finished job started after it arrived and has waited
  a time that is not negative.\<close>

lemma finished_jobs_empty_scheduler:
  assumes "sorts srt" and "readySet sch = []"
    and "\<forall>j\<in>set js. remainingTime j = burstTime j \<and> startTime j = -1"
    and "run srt (Simulator_new sch js) = Some y"
  shows "\<forall>j\<in>set (finishedJobs y). arrivalTime j \<le> startTime j \<and> startTime j \<le> completionTime j
           \<and> 0 \<le> waitingTime j"
proof -
  have "orderly (Simulator_new sch js)"
    using assms(2,3) by (simp add: orderly_def Simulator_new_def list_all_iff)
  with run_rule [OF assms(4), of orderly] step_orderly [OF assms(1)] have "orderly y" by blast
  then show ?thesis by (simp add: orderly_def list_all_iff done_ok_def)
qed

text \<open>
  C2 at the job list \<open>[Job(1, 5, 1, 0)]\<close> of the user interface. The copy of the job that
  \<^verbatim>\<open>setJobs\<close> put into the ready-set is run at time 0, before the job arrives at 5: the first
  job of finishedJobs has startTime 0, completionTime 1 and waitingTime -5. Over an empty
  scheduler the same job list gives one finished job, started at 5, with waitingTime 0.
\<close>

theorem C2_createSimulator_starts_before_arrival:
  "map_option (map (\<lambda>j. (arrivalTime j, startTime j, completionTime j, waitingTime j)) \<circ> finishedJobs)
     (run srt (createSimulator srt late_arrival)) = Some [(5, 0, 1, -5), (5, 5, 6, 0)]
 \<and> map_option (map (\<lambda>j. (arrivalTime j, startTime j, completionTime j, waitingTime j)) \<circ> finishedJobs)
     (run srt (Simulator_new (FCFSScheduler [] [] []) (jobs late_arrival))) = Some [(5, 5, 6, 0)]"
  by code_simp


section \<open>The empty ready-set\<close>

text \<open>
  C10. In each of the four scheduler classes, \<^verbatim>\<open>getNextJob\<close> on an empty ready-set returns
  the sentinel \<^verbatim>\<open>Job(-1, 0, 0, 0)\<close>, whose jobId is -1 and whose burstTime and remainingTime
  are 0, and the scheduler it leaves is the scheduler it was given: ready-set and
  scheduledJobs are unchanged.
\<close>

theorem C10_getNextJob_empty:
  assumes "readySet sch = []"
  shows "fst (getNextJob sch) = Job_id (-1) 0 0 0
       \<and> jobId (fst (getNextJob sch)) = -1
       \<and> burstTime (fst (getNextJob sch)) = 0
       \<and> remainingTime (fst (getNextJob sch)) = 0
       \<and> snd (getNextJob sch) = sch
       \<and> readySet (snd (getNextJob sch)) = readySet sch
       \<and> scheduledJobs (snd (getNextJob sch)) = scheduledJobs sch"
  using assms by (cases sch) (simp_all add: Job_id_def)

theorem C10_getNextJob_empty_witness:
  "readySet (FCFSScheduler [] [] []) = []
 \<and> getNextJob (FCFSScheduler [] [] []) = (Job_id (-1) 0 0 0, FCFSScheduler [] [] [])
 \<and> readySet (SJFScheduler [Job_id 7 0 1 0] [] []) = []
 \<and> getNextJob (SJFScheduler [Job_id 7 0 1 0] [] [])
     = (Job_id (-1) 0 0 0, SJFScheduler [Job_id 7 0 1 0] [] [])
 \<and> readySet (RoundRobinScheduler [] [] [] 2) = []
 \<and> getNextJob (RoundRobinScheduler [] [] [] 2) = (Job_id (-1) 0 0 0, RoundRobinScheduler [] [] [] 2)
 \<and> readySet (PriorityScheduler [] [] [] 5 1) = []
 \<and> getNextJob (PriorityScheduler [] [] [] 5 1)
     = (Job_id (-1) 0 0 0, PriorityScheduler [] [] [] 5 1)"
  using C10_getNextJob_empty [of "FCFSScheduler [] [] []"]
        C10_getNextJob_empty [of "SJFScheduler [Job_id 7 0 1 0] [] []"]
        C10_getNextJob_empty [of "RoundRobinScheduler [] [] [] 2"]
        C10_getNextJob_empty [of "PriorityScheduler [] [] [] 5 1"]
  by (simp add: prod_eq_iff)

end
